theory Spec2Isabelle
  imports Complex_Main
begin

section \<open>Tensors and the library operations used by rnn\_ipsid\_nonlinear.py\<close>

text \<open>
  The module works on dense tensors of double-precision numbers. The numbers are
  idealised as reals: rounding, overflow and NaN are outside this development.
  A tensor carries its shape explicitly, so that a dimension of size zero keeps the
  sizes of the other dimensions, as it does in the library.

  A 2-D tensor of shape (N, D) is a list of N rows together with D.
  A 3-D tensor of shape (B, T, D) is a list of B batch elements, each a list of T
  vectors, together with T and D.
\<close>

type_synonym vec = "real list"

record tensor2 =
  size1 :: nat
  rows :: "vec list"

record tensor3 =
  dim1 :: nat
  dim2 :: nat
  batches :: "vec list list"

definition valid3 :: "nat \<Rightarrow> nat \<Rightarrow> nat \<Rightarrow> tensor3 \<Rightarrow> bool" where
  "valid3 B T D y \<longleftrightarrow>
     length (batches y) = B \<and> dim1 y = T \<and> dim2 y = D \<and>
     (\<forall>b \<in> set (batches y). length b = T \<and> (\<forall>v \<in> set b. length v = D))"

datatype error = IndexError | RuntimeError

definition bind_err :: "error + 'a \<Rightarrow> ('a \<Rightarrow> error + 'b) \<Rightarrow> error + 'b" where
  "bind_err r f = (case r of Inl e \<Rightarrow> Inl e | Inr v \<Rightarrow> f v)"

text \<open>\<^verbatim>\<open>torch.zeros(n, d)\<close>\<close>

definition zeros :: "nat \<Rightarrow> nat \<Rightarrow> tensor2" where
  "zeros n d = \<lparr>size1 = d, rows = replicate n (replicate d 0)\<rparr>"

text \<open>\<^verbatim>\<open>y[:, t, :]\<close> for a 3-D tensor and an index \<open>t \<ge> 0\<close>: IndexError when
  \<open>t\<close> is not below the size of dimension 1.\<close>

definition select1 :: "tensor3 \<Rightarrow> nat \<Rightarrow> error + tensor2" where
  "select1 y t =
     (if t < dim1 y then Inr \<lparr>size1 = dim2 y, rows = map (\<lambda>b. b ! t) (batches y)\<rparr>
      else Inl IndexError)"

text \<open>Broadcasting of one dimension: equal sizes, or one of them is 1.\<close>

definition bsize :: "nat \<Rightarrow> nat \<Rightarrow> nat option" where
  "bsize a b = (if a = b then Some a else if a = 1 then Some b
                else if b = 1 then Some a else None)"

definition expand :: "nat \<Rightarrow> nat \<Rightarrow> 'a list \<Rightarrow> 'a list" where
  "expand have want xs = (if have = want then xs else replicate want (hd xs))"

definition vadd :: "vec \<Rightarrow> vec \<Rightarrow> vec" where
  "vadd r s = map2 (+) r s"

text \<open>\<^verbatim>\<open>a + b\<close> on 2-D tensors, with broadcasting; RuntimeError when the shapes
  cannot be broadcast.\<close>

definition add2 :: "tensor2 \<Rightarrow> tensor2 \<Rightarrow> error + tensor2" where
  "add2 a b =
     (case bsize (length (rows a)) (length (rows b)) of
        None \<Rightarrow> Inl RuntimeError
      | Some n \<Rightarrow>
          (case bsize (size1 a) (size1 b) of
             None \<Rightarrow> Inl RuntimeError
           | Some d \<Rightarrow>
               Inr \<lparr>size1 = d,
                    rows = map2 (\<lambda>r s. vadd (expand (size1 a) d r) (expand (size1 b) d s))
                             (expand (length (rows a)) n (rows a))
                             (expand (length (rows b)) n (rows b))\<rparr>))"

text \<open>\<^verbatim>\<open>nn.Linear(in_features, out_features)\<close>: a weight of shape (out, in) and a
  bias of shape (out). Applied to a 2-D tensor (N, in) it gives (N, out), row by row
  \<open>x W\<^sup>T + b\<close>; RuntimeError when the trailing size of the input is not \<open>in\<close>.\<close>

record Linear =
  in_features :: nat
  weight :: "vec list"
  bias :: vec

definition dot :: "vec \<Rightarrow> vec \<Rightarrow> real" where
  "dot v w = sum_list (map2 (*) v w)"

definition affine :: "Linear \<Rightarrow> vec \<Rightarrow> vec" where
  "affine l v = map2 (\<lambda>w b. dot v w + b) (weight l) (bias l)"

definition Linear_forward :: "Linear \<Rightarrow> tensor2 \<Rightarrow> error + tensor2" where
  "Linear_forward l x =
     (if size1 x = in_features l
      then Inr \<lparr>size1 = length (weight l), rows = map (affine l) (rows x)\<rparr>
      else Inl RuntimeError)"

text \<open>The instances \<^verbatim>\<open>nn.Linear(i, out)\<close> can be: parameters of these shapes, with
  any values (they are initialised at random and then trained by the caller).\<close>

definition Linear_init :: "nat \<Rightarrow> nat \<Rightarrow> Linear \<Rightarrow> bool" where
  "Linear_init i out l \<longleftrightarrow>
     in_features l = i \<and> length (weight l) = out \<and> length (bias l) = out \<and>
     (\<forall>w \<in> set (weight l). length w = i)"

text \<open>The instance whose weight and bias are zero.\<close>

definition zero_Linear :: "nat \<Rightarrow> nat \<Rightarrow> Linear" where
  "zero_Linear i out =
     \<lparr>in_features = i, weight = replicate out (replicate i 0), bias = replicate out 0\<rparr>"

text \<open>\<^verbatim>\<open>nn.ReLU()\<close> and \<^verbatim>\<open>nn.Sigmoid()\<close>, elementwise.\<close>

definition relu :: "real \<Rightarrow> real" where
  "relu x = max 0 x"

definition sigmoid :: "real \<Rightarrow> real" where
  "sigmoid x = 1 / (1 + exp (- x))"

definition map_elems :: "(real \<Rightarrow> real) \<Rightarrow> tensor2 \<Rightarrow> tensor2" where
  "map_elems f x = \<lparr>size1 = size1 x, rows = map (map f) (rows x)\<rparr>"

text \<open>\<^verbatim>\<open>torch.stack(xs, dim=1)\<close> on a list of 2-D tensors: RuntimeError on the empty
  list and on tensors of different shapes; otherwise the tensor of shape
  (N, len(xs), D) whose element \<open>[n][t]\<close> is row \<open>n\<close> of \<open>xs[t]\<close>.\<close>

definition same_shape :: "tensor2 \<Rightarrow> tensor2 \<Rightarrow> bool" where
  "same_shape a b \<longleftrightarrow> length (rows a) = length (rows b) \<and> size1 a = size1 b"

definition stack1 :: "tensor2 list \<Rightarrow> error + tensor3" where
  "stack1 xs =
     (case xs of
        [] \<Rightarrow> Inl RuntimeError
      | x # _ \<Rightarrow>
          if list_all (same_shape x) xs
          then Inr \<lparr>dim1 = length xs, dim2 = size1 x,
                    batches = map (\<lambda>n. map (\<lambda>a. rows a ! n) xs) [0..<length (rows x)]\<rparr>
          else Inl RuntimeError)"

text \<open>\<^verbatim>\<open>y[:, :n, :]\<close>: the first \<open>n\<close> time steps of a 3-D tensor.\<close>

definition prefix3 :: "nat \<Rightarrow> tensor3 \<Rightarrow> tensor3" where
  "prefix3 n y = \<lparr>dim1 = min n (dim1 y), dim2 = dim2 y, batches = map (take n) (batches y)\<rparr>"

text \<open>\<^verbatim>\<open>torch.cat((a, b), dim=2)\<close> on 3-D tensors: RuntimeError unless the sizes
  of dimensions 0 and 1 agree.\<close>

definition cat2 :: "tensor3 \<Rightarrow> tensor3 \<Rightarrow> error + tensor3" where
  "cat2 a b =
     (if length (batches a) = length (batches b) \<and> dim1 a = dim1 b
      then Inr \<lparr>dim1 = dim1 a, dim2 = dim2 a + dim2 b,
                batches = map2 (map2 (@)) (batches a) (batches b)\<rparr>
      else Inl RuntimeError)"


section \<open>Stage 1\<close>

subsection \<open>Optim1Cell\<close>

record Optim1Cell =
  xNext_size :: nat
  W_A :: Linear
  W_K :: Linear
  W_B :: Linear

definition Optim1Cell_init :: "nat \<Rightarrow> nat \<Rightarrow> nat \<Rightarrow> Optim1Cell \<Rightarrow> bool" where
  "Optim1Cell_init x_size y_size u_size c \<longleftrightarrow>
     xNext_size c = x_size \<and>
     Linear_init x_size x_size (W_A c) \<and>
     Linear_init y_size x_size (W_K c) \<and>
     Linear_init u_size x_size (W_B c)"

definition Optim1Cell_forward ::
  "Optim1Cell \<Rightarrow> tensor2 \<Rightarrow> tensor2 \<Rightarrow> tensor2 \<Rightarrow> error + tensor2" where
  "Optim1Cell_forward c xBehav_t y_t u_t =
     bind_err (Linear_forward (W_A c) xBehav_t) (\<lambda>a.
     bind_err (Linear_forward (W_K c) y_t) (\<lambda>k.
     bind_err (add2 a k) (\<lambda>ak.
     bind_err (Linear_forward (W_B c) u_t) (\<lambda>b.
     add2 ak b))))"

subsection \<open>NonlinearOptim1CellZ\<close>

record NonlinearOptim1CellZ =
  Cz1_lin :: Linear
  Cz1_lin2 :: Linear

definition NonlinearOptim1CellZ_init :: "nat \<Rightarrow> nat \<Rightarrow> NonlinearOptim1CellZ \<Rightarrow> bool" where
  "NonlinearOptim1CellZ_init xb zh d \<longleftrightarrow>
     Linear_init xb xb (Cz1_lin d) \<and>
     Linear_init xb zh (Cz1_lin2 d)"

definition NonlinearOptim1CellZ_forward ::
  "NonlinearOptim1CellZ \<Rightarrow> tensor2 \<Rightarrow> error + tensor2" where
  "NonlinearOptim1CellZ_forward d xBehav_t =
     bind_err (Linear_forward (Cz1_lin d) xBehav_t) (\<lambda>z_pred.
     bind_err (Inr (map_elems relu z_pred)) (\<lambda>z_pred.
     bind_err (Linear_forward (Cz1_lin2 d) z_pred) (\<lambda>z_pred.
     Inr (map_elems sigmoid z_pred))))"

subsection \<open>Optim1\<close>

record Optim1 =
  xBehav_size :: nat
  yhat_size :: nat
  rnn_cell :: Optim1Cell
  nonlinear_cellZ :: NonlinearOptim1CellZ

definition Optim1_init :: "nat \<Rightarrow> nat \<Rightarrow> nat \<Rightarrow> nat \<Rightarrow> nat \<Rightarrow> Optim1 \<Rightarrow> bool" where
  "Optim1_init xb y_size u_size yh zh p \<longleftrightarrow>
     xBehav_size p = xb \<and> yhat_size p = yh \<and>
     Optim1Cell_init xb y_size u_size (rnn_cell p) \<and>
     NonlinearOptim1CellZ_init xb zh (nonlinear_cellZ p)"

text \<open>The body of the loop \<^verbatim>\<open>for t in range(seq_len)\<close>, over the loop's variables
  \<^verbatim>\<open>(xBehav_t, behavStates, z_hats1)\<close>.\<close>

fun Optim1_loop ::
  "Optim1 \<Rightarrow> tensor3 \<Rightarrow> tensor3 \<Rightarrow> nat list \<Rightarrow> tensor2 \<times> tensor2 list \<times> tensor2 list
   \<Rightarrow> error + tensor2 \<times> tensor2 list \<times> tensor2 list" where
  "Optim1_loop p y u [] st = Inr st"
| "Optim1_loop p y u (t # ts) (xBehav_t, behavStates, z_hats1) =
     bind_err (select1 y t) (\<lambda>y_t.
     bind_err (select1 u t) (\<lambda>u_t.
     bind_err (Optim1Cell_forward (rnn_cell p) xBehav_t y_t u_t) (\<lambda>x_next.
     bind_err (NonlinearOptim1CellZ_forward (nonlinear_cellZ p) xBehav_t) (\<lambda>z_pred.
     Optim1_loop p y u ts (x_next, behavStates @ [xBehav_t], z_hats1 @ [z_pred])))))"

definition Optim1_forward :: "Optim1 \<Rightarrow> tensor3 \<Rightarrow> tensor3 \<Rightarrow> error + tensor3 \<times> tensor3" where
  "Optim1_forward p y u =
     (let batch_size = length (batches y); seq_len = dim1 y;
          xBehav_t = zeros batch_size (xBehav_size p)
      in bind_err (Optim1_loop p y u [0..<seq_len] (xBehav_t, [], [])) (\<lambda>(x, behavStates, z_hats1).
         bind_err (stack1 behavStates) (\<lambda>behavStates.
         bind_err (stack1 z_hats1) (\<lambda>z_hats1.
         Inr (z_hats1, behavStates)))))"

section \<open>Stage 2\<close>

subsection \<open>Optim3Cell\<close>

record Optim3Cell =
  W_A :: Linear
  W_K :: Linear
  W_B :: Linear

definition Optim3Cell_init :: "nat \<Rightarrow> nat \<Rightarrow> nat \<Rightarrow> nat \<Rightarrow> Optim3Cell \<Rightarrow> bool" where
  "Optim3Cell_init xb xn y_size u_size c \<longleftrightarrow>
     Linear_init xn xn (Optim3Cell.W_A c) \<and>
     Linear_init (y_size + xb) xn (Optim3Cell.W_K c) \<and>
     Linear_init u_size xn (Optim3Cell.W_B c)"

definition Optim3Cell_forward ::
  "Optim3Cell \<Rightarrow> tensor2 \<Rightarrow> tensor2 \<Rightarrow> tensor2 \<Rightarrow> error + tensor2" where
  "Optim3Cell_forward c xNeural_t yAndxBehav_t u_t =
     bind_err (Linear_forward (Optim3Cell.W_A c) xNeural_t) (\<lambda>a.
     bind_err (Linear_forward (Optim3Cell.W_K c) yAndxBehav_t) (\<lambda>k.
     bind_err (add2 a k) (\<lambda>ak.
     bind_err (Linear_forward (Optim3Cell.W_B c) u_t) (\<lambda>b.
     add2 ak b))))"

subsection \<open>NonlinearOptim3CellY\<close>

record NonlinearOptim3CellY =
  Cy2_lin :: Linear
  Cy2_lin2 :: Linear

definition NonlinearOptim3CellY_init :: "nat \<Rightarrow> nat \<Rightarrow> NonlinearOptim3CellY \<Rightarrow> bool" where
  "NonlinearOptim3CellY_init xn yh d \<longleftrightarrow>
     Linear_init xn xn (Cy2_lin d) \<and>
     Linear_init xn yh (Cy2_lin2 d)"

definition NonlinearOptim3CellY_forward ::
  "NonlinearOptim3CellY \<Rightarrow> tensor2 \<Rightarrow> error + tensor2" where
  "NonlinearOptim3CellY_forward d xNeural_t =
     bind_err (Linear_forward (Cy2_lin d) xNeural_t) (\<lambda>y_pred.
     bind_err (Inr (map_elems relu y_pred)) (\<lambda>y_pred.
     bind_err (Linear_forward (Cy2_lin2 d) y_pred) (\<lambda>y_pred.
     Inr (map_elems sigmoid y_pred))))"

subsection \<open>Optim3\<close>

record Optim3 =
  xNeural_size :: nat
  zhat_size :: nat
  rnn_cell :: Optim3Cell
  nonlinear_cellY :: NonlinearOptim3CellY

definition Optim3_init ::
  "nat \<Rightarrow> nat \<Rightarrow> nat \<Rightarrow> nat \<Rightarrow> nat \<Rightarrow> nat \<Rightarrow> Optim3 \<Rightarrow> bool" where
  "Optim3_init xb xn y_size u_size yh zh q \<longleftrightarrow>
     xNeural_size q = xn \<and> zhat_size q = zh \<and>
     Optim3Cell_init xb xn y_size u_size (Optim3.rnn_cell q) \<and>
     NonlinearOptim3CellY_init xn yh (nonlinear_cellY q)"

text \<open>The body of the loop, over \<^verbatim>\<open>(xNeural_t, y_hats2, xNeural_states)\<close>.\<close>

fun Optim3_loop ::
  "Optim3 \<Rightarrow> tensor3 \<Rightarrow> tensor3 \<Rightarrow> nat list \<Rightarrow> tensor2 \<times> tensor2 list \<times> tensor2 list
   \<Rightarrow> error + tensor2 \<times> tensor2 list \<times> tensor2 list" where
  "Optim3_loop q yAndxBehav u [] st = Inr st"
| "Optim3_loop q yAndxBehav u (t # ts) (xNeural_t, y_hats2, xNeural_states) =
     bind_err (select1 yAndxBehav t) (\<lambda>yAndxBehav_t.
     bind_err (select1 u t) (\<lambda>u_t.
     bind_err (Optim3Cell_forward (Optim3.rnn_cell q) xNeural_t yAndxBehav_t u_t) (\<lambda>x_next.
     bind_err (NonlinearOptim3CellY_forward (nonlinear_cellY q) xNeural_t) (\<lambda>y_pred.
     Optim3_loop q yAndxBehav u ts
       (x_next, y_hats2 @ [y_pred], xNeural_states @ [xNeural_t])))))"

definition Optim3_forward ::
  "Optim3 \<Rightarrow> tensor3 \<Rightarrow> tensor3 \<Rightarrow> tensor3 \<Rightarrow> error + tensor3 \<times> tensor3" where
  "Optim3_forward q behavStates y u =
     (let batch_size = length (batches y); seq_len = dim1 y;
          xNeural_t = zeros batch_size (xNeural_size q)
      in bind_err (cat2 y behavStates) (\<lambda>yAndxBehav.
         bind_err (Optim3_loop q yAndxBehav u [0..<seq_len] (xNeural_t, [], []))
           (\<lambda>(x, y_hats2, xNeural_states).
         bind_err (stack1 y_hats2) (\<lambda>y_hats2.
         bind_err (stack1 xNeural_states) (\<lambda>xNeural_states.
         Inr (y_hats2, xNeural_states))))))"


section \<open>The loops without their error branches\<close>

text \<open>
  On inputs of the right shapes no branch of the loops fails. What they compute then
  is described by total functions: the selected slice, one step of the affine
  recurrence on a whole batch, the readout on a whole batch, the list of the states
  the loop visits, and the stacked result.
\<close>

definition sel :: "tensor3 \<Rightarrow> nat \<Rightarrow> tensor2" where
  "sel y t = \<lparr>size1 = dim2 y, rows = map (\<lambda>b. b ! t) (batches y)\<rparr>"

definition step2 :: "Linear \<Rightarrow> Linear \<Rightarrow> Linear \<Rightarrow> tensor2 \<Rightarrow> tensor2 \<Rightarrow> tensor2 \<Rightarrow> tensor2" where
  "step2 A K B x y_t u_t =
     \<lparr>size1 = length (weight A),
      rows = map2 vadd (map2 vadd (map (affine A) (rows x)) (map (affine K) (rows y_t)))
               (map (affine B) (rows u_t))\<rparr>"

definition readout :: "Linear \<Rightarrow> Linear \<Rightarrow> vec \<Rightarrow> vec" where
  "readout L1 L2 v = map sigmoid (affine L2 (map relu (affine L1 v)))"

definition readout2 :: "Linear \<Rightarrow> Linear \<Rightarrow> tensor2 \<Rightarrow> tensor2" where
  "readout2 L1 L2 x = \<lparr>size1 = length (weight L2), rows = map (readout L1 L2) (rows x)\<rparr>"

fun trace :: "Linear \<Rightarrow> Linear \<Rightarrow> Linear \<Rightarrow> tensor3 \<Rightarrow> tensor3 \<Rightarrow> nat list \<Rightarrow> tensor2
              \<Rightarrow> tensor2 list" where
  "trace A K B y u [] x = []"
| "trace A K B y u (t # ts) x = x # trace A K B y u ts (step2 A K B x (sel y t) (sel u t))"

fun final :: "Linear \<Rightarrow> Linear \<Rightarrow> Linear \<Rightarrow> tensor3 \<Rightarrow> tensor3 \<Rightarrow> nat list \<Rightarrow> tensor2
              \<Rightarrow> tensor2" where
  "final A K B y u [] x = x"
| "final A K B y u (t # ts) x = final A K B y u ts (step2 A K B x (sel y t) (sel u t))"

definition cat :: "tensor3 \<Rightarrow> tensor3 \<Rightarrow> tensor3" where
  "cat a b =
     \<lparr>dim1 = dim1 a, dim2 = dim2 a + dim2 b, batches = map2 (map2 (@)) (batches a) (batches b)\<rparr>"

definition stacked :: "nat \<Rightarrow> nat \<Rightarrow> tensor2 list \<Rightarrow> tensor3" where
  "stacked N D xs =
     \<lparr>dim1 = length xs, dim2 = D, batches = map (\<lambda>n. map (\<lambda>a. rows a ! n) xs) [0..<N]\<rparr>"


section \<open>Example instances\<close>

definition ex_cell :: Optim1Cell where
  "ex_cell = \<lparr>xNext_size = 1,
     W_A = \<lparr>in_features = 1, weight = [[2]], bias = [1]\<rparr>,
     W_K = \<lparr>in_features = 1, weight = [[3]], bias = [0]\<rparr>,
     W_B = \<lparr>in_features = 1, weight = [[1]], bias = [1]\<rparr>\<rparr>"

definition ex_dec :: NonlinearOptim1CellZ where
  "ex_dec = \<lparr>Cz1_lin = \<lparr>in_features = 1, weight = [[1]], bias = [0]\<rparr>,
     Cz1_lin2 = \<lparr>in_features = 1, weight = [[1]], bias = [0]\<rparr>\<rparr>"

definition ex_dec0 :: NonlinearOptim1CellZ where
  "ex_dec0 = \<lparr>Cz1_lin = zero_Linear 1 1, Cz1_lin2 = zero_Linear 1 1\<rparr>"

definition ex_p :: Optim1 where
  "ex_p = \<lparr>xBehav_size = 1, yhat_size = 1, rnn_cell = ex_cell, nonlinear_cellZ = ex_dec\<rparr>"

definition ex_y :: tensor3 where
  "ex_y = \<lparr>dim1 = 2, dim2 = 1, batches = [[[1], [2]]]\<rparr>"

definition ex_u :: tensor3 where
  "ex_u = \<lparr>dim1 = 2, dim2 = 1, batches = [[[1], [0]]]\<rparr>"

definition ex_y8 :: tensor3 where
  "ex_y8 = \<lparr>dim1 = 8, dim2 = 1, batches = [[[1], [2], [3], [4], [5], [6], [7], [8]]]\<rparr>"

definition ex_u8 :: tensor3 where
  "ex_u8 = \<lparr>dim1 = 8, dim2 = 1, batches = [[[1], [0], [1], [0], [1], [0], [1], [0]]]\<rparr>"

definition ex_y' :: tensor3 where
  "ex_y' = \<lparr>dim1 = 2, dim2 = 1, batches = [[[5], [7]]]\<rparr>"

definition ex_u' :: tensor3 where
  "ex_u' = \<lparr>dim1 = 2, dim2 = 1, batches = [[[3], [4]]]\<rparr>"

text \<open>An instance of Stage 1 whose maps \<open>W_A\<close> and \<open>W_K\<close> are zero.\<close>

definition ex_p_zeroAK :: Optim1 where
  "ex_p_zeroAK = \<lparr>xBehav_size = 1, yhat_size = 1,
     rnn_cell = \<lparr>xNext_size = 1, W_A = zero_Linear 1 1, W_K = zero_Linear 1 1,
       W_B = \<lparr>in_features = 1, weight = [[2]], bias = [1]\<rparr>\<rparr>,
     nonlinear_cellZ = ex_dec0\<rparr>"

text \<open>An instance of Stage 1 with \<open>u_size = 0\<close>, and an input stream of width 0.\<close>

definition ex_p_noinput :: Optim1 where
  "ex_p_noinput = \<lparr>xBehav_size = 1, yhat_size = 1,
     rnn_cell = \<lparr>xNext_size = 1, W_A = zero_Linear 1 1, W_K = zero_Linear 1 1,
       W_B = \<lparr>in_features = 0, weight = [[]], bias = [1]\<rparr>\<rparr>,
     nonlinear_cellZ = ex_dec0\<rparr>"

definition ex_u_empty :: tensor3 where
  "ex_u_empty = \<lparr>dim1 = 2, dim2 = 0, batches = [[[], []]]\<rparr>"

text \<open>An instance of Stage 2 with all widths 1, and a state sequence to drive it.\<close>

definition ex_q :: Optim3 where
  "ex_q = \<lparr>xNeural_size = 1, zhat_size = 1,
     rnn_cell = \<lparr>W_A = \<lparr>in_features = 1, weight = [[2]], bias = [1]\<rparr>,
                 W_K = \<lparr>in_features = 2, weight = [[3, 5]], bias = [0]\<rparr>,
                 W_B = \<lparr>in_features = 1, weight = [[1]], bias = [1]\<rparr>\<rparr>,
     nonlinear_cellY = \<lparr>Cy2_lin = zero_Linear 1 1, Cy2_lin2 = zero_Linear 1 1\<rparr>\<rparr>"

definition ex_behav :: tensor3 where
  "ex_behav = \<lparr>dim1 = 2, dim2 = 1, batches = [[[4], [6]]]\<rparr>"

text \<open>Inputs whose shapes disagree: a shorter \<open>y\<close>, a shorter \<open>u\<close>, a \<open>y\<close> with two
  batch elements, a state sequence of length 3.\<close>

definition ex_y1 :: tensor3 where
  "ex_y1 = \<lparr>dim1 = 1, dim2 = 1, batches = [[[1]]]\<rparr>"

definition ex_u1 :: tensor3 where
  "ex_u1 = \<lparr>dim1 = 1, dim2 = 1, batches = [[[1]]]\<rparr>"

definition ex_y_two :: tensor3 where
  "ex_y_two = \<lparr>dim1 = 2, dim2 = 1, batches = [[[1], [2]], [[3], [4]]]\<rparr>"

definition ex_behav3 :: tensor3 where
  "ex_behav3 = \<lparr>dim1 = 3, dim2 = 1, batches = [[[4], [6], [8]]]\<rparr>"


section \<open>Basic facts about the operations\<close>

lemma bind_err_Inr: "bind_err (Inr v) f = f v"
  by (simp add: bind_err_def)

lemma bind_err_Inl: "bind_err (Inl e) f = Inl e"
  by (simp add: bind_err_def)

lemma isl_bind_err: "isl r \<Longrightarrow> isl (bind_err r f)"
  by (cases r) (simp_all add: bind_err_def)

lemma select1_ok: "t < dim1 y \<Longrightarrow> select1 y t = Inr (sel y t)"
  by (simp add: select1_def sel_def)

lemma Linear_forward_ok:
  "size1 x = in_features l \<Longrightarrow>
   Linear_forward l x = Inr \<lparr>size1 = length (weight l), rows = map (affine l) (rows x)\<rparr>"
  by (simp add: Linear_forward_def)

lemma add2_same:
  "length (rows a) = length (rows b) \<Longrightarrow> size1 a = size1 b \<Longrightarrow>
   add2 a b = Inr \<lparr>size1 = size1 a, rows = map2 vadd (rows a) (rows b)\<rparr>"
  by (simp add: add2_def bsize_def expand_def)

lemma cell_ok:
  assumes "in_features A = size1 x" "in_features K = size1 y_t" "in_features B = size1 u_t"
    and "length (weight K) = length (weight A)" "length (weight B) = length (weight A)"
    and "length (rows y_t) = length (rows x)" "length (rows u_t) = length (rows x)"
  shows "bind_err (Linear_forward A x) (\<lambda>a.
         bind_err (Linear_forward K y_t) (\<lambda>k.
         bind_err (add2 a k) (\<lambda>ak.
         bind_err (Linear_forward B u_t) (\<lambda>b.
         add2 ak b)))) = Inr (step2 A K B x y_t u_t)"
  using assms by (simp add: Linear_forward_ok add2_same bind_err_Inr step2_def)

lemma readout_ok:
  assumes "in_features L1 = size1 x" "in_features L2 = length (weight L1)"
  shows "bind_err (Linear_forward L1 x) (\<lambda>z.
         bind_err (Inr (map_elems relu z)) (\<lambda>z.
         bind_err (Linear_forward L2 z) (\<lambda>z.
         Inr (map_elems sigmoid z)))) = Inr (readout2 L1 L2 x)"
  using assms
  by (simp add: Linear_forward_ok bind_err_Inr map_elems_def readout2_def readout_def)

lemma step2_size1: "size1 (step2 A K B x y_t u_t) = length (weight A)"
  by (simp add: step2_def)

lemma step2_shape:
  assumes "length (rows y_t) = length (rows x)" "length (rows u_t) = length (rows x)"
  shows "length (rows (step2 A K B x y_t u_t)) = length (rows x)"
  using assms by (simp add: step2_def)

lemma step2_row:
  assumes "length (rows y_t) = length (rows x)" "length (rows u_t) = length (rows x)"
    and "n < length (rows x)"
  shows "rows (step2 A K B x y_t u_t) ! n =
         vadd (vadd (affine A (rows x ! n)) (affine K (rows y_t ! n))) (affine B (rows u_t ! n))"
  using assms by (simp add: step2_def)

lemma sel_shape: "length (rows (sel y t)) = length (batches y)" "size1 (sel y t) = dim2 y"
  by (simp_all add: sel_def)

lemma sel_row: "n < length (batches y) \<Longrightarrow> rows (sel y t) ! n = batches y ! n ! t"
  by (simp add: sel_def)

lemma length_trace: "length (trace A K B y u ts x) = length ts"
  by (induction ts arbitrary: x) simp_all

lemma trace_append:
  "trace A K B y u (ts @ ts') x =
   trace A K B y u ts x @ trace A K B y u ts' (final A K B y u ts x)"
  by (induction ts arbitrary: x) simp_all

lemma trace_shape:
  assumes "length (batches y) = length (rows x)" "length (batches u) = length (rows x)"
    and "size1 x = length (weight A)" and "s \<in> set (trace A K B y u ts x)"
  shows "length (rows s) = length (rows x) \<and> size1 s = length (weight A)"
  using assms
proof (induction ts arbitrary: x)
  case Nil
  then show ?case by simp
next
  case (Cons t ts)
  show ?case
  proof (cases "s = x")
    case True
    with Cons.prems show ?thesis by simp
  next
    case False
    let ?x' = "step2 A K B x (sel y t) (sel u t)"
    have len: "length (rows ?x') = length (rows x)"
      using Cons.prems by (simp add: step2_shape sel_shape)
    from False Cons.prems have "s \<in> set (trace A K B y u ts ?x')" by simp
    with Cons.IH[of ?x'] len Cons.prems show ?thesis
      by (simp add: step2_size1)
  qed
qed

lemma trace_cong:
  assumes "\<And>t. t \<in> set ts \<Longrightarrow> sel y t = sel y' t \<and> sel u t = sel u' t"
  shows "trace A K B y u ts x = trace A K B y' u' ts x"
  using assms by (induction ts arbitrary: x) simp_all

lemma trace_upt_0: "a < T \<Longrightarrow> trace A K B y u [a..<T] x ! 0 = x"
  by (simp add: upt_conv_Cons)

lemma trace_upt_Suc:
  "a + Suc k < T \<Longrightarrow>
   trace A K B y u [a..<T] x ! Suc k =
   step2 A K B (trace A K B y u [a..<T] x ! k) (sel y (a + k)) (sel u (a + k))"
proof (induction k arbitrary: a x)
  case 0
  then show ?case by (simp add: upt_conv_Cons)
next
  case (Suc k)
  let ?x' = "step2 A K B x (sel y a) (sel u a)"
  from Suc.prems have a: "a < T" by simp
  have "trace A K B y u [a..<T] x ! Suc (Suc k) = trace A K B y u [Suc a..<T] ?x' ! Suc k"
    using a by (simp add: upt_conv_Cons)
  also have "\<dots> = step2 A K B (trace A K B y u [Suc a..<T] ?x' ! k)
                      (sel y (Suc a + k)) (sel u (Suc a + k))"
    using Suc.prems by (intro Suc.IH) simp
  also have "trace A K B y u [Suc a..<T] ?x' ! k = trace A K B y u [a..<T] x ! Suc k"
    using a by (simp add: upt_conv_Cons)
  finally show ?case by simp
qed

lemma stack1_ok:
  assumes "xs \<noteq> []" "\<And>s. s \<in> set xs \<Longrightarrow> length (rows s) = N \<and> size1 s = D"
  shows "stack1 xs = Inr (stacked N D xs)"
proof (cases xs)
  case Nil
  with assms show ?thesis by simp
next
  case (Cons x rest)
  have "list_all (same_shape x) xs"
    using assms Cons by (simp add: list_all_iff same_shape_def)
  with Cons assms(2)[of x] show ?thesis
    by (simp add: stack1_def stacked_def)
qed


lemma Optim1Cell_forward_ok:
  assumes "Optim1Cell_init xb ys us c"
    and "size1 x = xb" "size1 y_t = ys" "size1 u_t = us"
    and "length (rows y_t) = length (rows x)" "length (rows u_t) = length (rows x)"
  shows "Optim1Cell_forward c x y_t u_t =
         Inr (step2 (Optim1Cell.W_A c) (Optim1Cell.W_K c) (Optim1Cell.W_B c) x y_t u_t)"
  unfolding Optim1Cell_forward_def
  using assms by (intro cell_ok) (simp_all add: Optim1Cell_init_def Linear_init_def)

lemma NonlinearOptim1CellZ_forward_ok:
  assumes "NonlinearOptim1CellZ_init xb zh d" "size1 x = xb"
  shows "NonlinearOptim1CellZ_forward d x = Inr (readout2 (Cz1_lin d) (Cz1_lin2 d) x)"
  unfolding NonlinearOptim1CellZ_forward_def
  using assms by (intro readout_ok) (simp_all add: NonlinearOptim1CellZ_init_def Linear_init_def)

lemma Optim1_loop_ok:
  assumes init: "Optim1_init xb ys us yh zh p"
    and y: "length (batches y) = N" "dim2 y = ys"
    and u: "length (batches u) = N" "dim2 u = us"
    and ts: "\<And>t. t \<in> set ts \<Longrightarrow> t < dim1 y \<and> t < dim1 u"
    and x: "length (rows x) = N" "size1 x = xb"
  shows "Optim1_loop p y u ts (x, bs, zs) =
         Inr (final (Optim1Cell.W_A (Optim1.rnn_cell p)) (Optim1Cell.W_K (Optim1.rnn_cell p))
                (Optim1Cell.W_B (Optim1.rnn_cell p)) y u ts x,
              bs @ trace (Optim1Cell.W_A (Optim1.rnn_cell p)) (Optim1Cell.W_K (Optim1.rnn_cell p))
                (Optim1Cell.W_B (Optim1.rnn_cell p)) y u ts x,
              zs @ map (readout2 (Cz1_lin (nonlinear_cellZ p)) (Cz1_lin2 (nonlinear_cellZ p)))
                (trace (Optim1Cell.W_A (Optim1.rnn_cell p)) (Optim1Cell.W_K (Optim1.rnn_cell p))
                (Optim1Cell.W_B (Optim1.rnn_cell p)) y u ts x))"
  using ts x
proof (induction ts arbitrary: x bs zs)
  case Nil
  show ?case by simp
next
  case (Cons t ts)
  let ?c = "Optim1.rnn_cell p"
  let ?x' = "step2 (Optim1Cell.W_A ?c) (Optim1Cell.W_K ?c) (Optim1Cell.W_B ?c) x (sel y t) (sel u t)"
  from init have c: "Optim1Cell_init xb ys us ?c"
    and d: "NonlinearOptim1CellZ_init xb zh (nonlinear_cellZ p)"
    by (simp_all add: Optim1_init_def)
  from Cons.prems(1)[of t] have t: "t < dim1 y" "t < dim1 u" by simp_all
  have cell: "Optim1Cell_forward ?c x (sel y t) (sel u t) = Inr ?x'"
    using c Cons.prems(2,3) y u by (intro Optim1Cell_forward_ok) (simp_all add: sel_shape)
  have dec: "NonlinearOptim1CellZ_forward (nonlinear_cellZ p) x =
             Inr (readout2 (Cz1_lin (nonlinear_cellZ p)) (Cz1_lin2 (nonlinear_cellZ p)) x)"
    using d Cons.prems(3) by (rule NonlinearOptim1CellZ_forward_ok)
  have len: "length (rows ?x') = N"
    using Cons.prems(2) y u by (simp add: step2_shape sel_shape)
  have wd: "size1 ?x' = xb"
    using c by (simp add: step2_size1 Optim1Cell_init_def Linear_init_def)
  have "Optim1_loop p y u (t # ts) (x, bs, zs) =
        Optim1_loop p y u ts (?x', bs @ [x],
          zs @ [readout2 (Cz1_lin (nonlinear_cellZ p)) (Cz1_lin2 (nonlinear_cellZ p)) x])"
    using t cell dec by (simp add: select1_ok bind_err_Inr)
  also have "\<dots> = Inr (final (Optim1Cell.W_A ?c) (Optim1Cell.W_K ?c) (Optim1Cell.W_B ?c) y u (t # ts) x,
              bs @ trace (Optim1Cell.W_A ?c) (Optim1Cell.W_K ?c) (Optim1Cell.W_B ?c) y u (t # ts) x,
              zs @ map (readout2 (Cz1_lin (nonlinear_cellZ p)) (Cz1_lin2 (nonlinear_cellZ p)))
                (trace (Optim1Cell.W_A ?c) (Optim1Cell.W_K ?c) (Optim1Cell.W_B ?c) y u (t # ts) x))"
    using Cons.prems(1) len wd by (subst Cons.IH) simp_all
  finally show ?case .
qed

lemma Optim1_forward_ok:
  assumes init: "Optim1_init xb ys us yh zh p"
    and y: "length (batches y) = N" "dim2 y = ys"
    and u: "length (batches u) = N" "dim2 u = us" "dim1 y \<le> dim1 u"
    and T: "0 < dim1 y"
  shows "Optim1_forward p y u =
         Inr (stacked N zh (map (readout2 (Cz1_lin (nonlinear_cellZ p)) (Cz1_lin2 (nonlinear_cellZ p)))
                (trace (Optim1Cell.W_A (Optim1.rnn_cell p)) (Optim1Cell.W_K (Optim1.rnn_cell p))
                   (Optim1Cell.W_B (Optim1.rnn_cell p)) y u [0..<dim1 y] (zeros N xb))),
              stacked N xb (trace (Optim1Cell.W_A (Optim1.rnn_cell p)) (Optim1Cell.W_K (Optim1.rnn_cell p))
                   (Optim1Cell.W_B (Optim1.rnn_cell p)) y u [0..<dim1 y] (zeros N xb)))"
proof -
  let ?A = "Optim1Cell.W_A (Optim1.rnn_cell p)"
  let ?K = "Optim1Cell.W_K (Optim1.rnn_cell p)"
  let ?B = "Optim1Cell.W_B (Optim1.rnn_cell p)"
  let ?L1 = "Cz1_lin (nonlinear_cellZ p)"
  let ?L2 = "Cz1_lin2 (nonlinear_cellZ p)"
  let ?tr = "trace ?A ?K ?B y u [0..<dim1 y] (zeros N xb)"
  from init have xb: "xBehav_size p = xb" and wA: "length (weight ?A) = xb"
    and wL: "length (weight ?L2) = zh"
    by (simp_all add: Optim1_init_def Optim1Cell_init_def NonlinearOptim1CellZ_init_def
        Linear_init_def)
  have z: "length (rows (zeros N xb)) = N" "size1 (zeros N xb) = xb"
    by (simp_all add: zeros_def)
  have loop: "Optim1_loop p y u [0..<dim1 y] (zeros N xb, [], []) =
              Inr (final ?A ?K ?B y u [0..<dim1 y] (zeros N xb), [] @ ?tr,
                   [] @ map (readout2 ?L1 ?L2) ?tr)"
    using init y(1,2) u(1,2) _ z
  proof (rule Optim1_loop_ok)
    fix t assume "t \<in> set [0..<dim1 y]"
    with u(3) show "t < dim1 y \<and> t < dim1 u" by simp
  qed
  have ne: "?tr \<noteq> []"
    using T length_trace[of ?A ?K ?B y u "[0..<dim1 y]" "zeros N xb"] by auto
  have sh: "\<And>s. s \<in> set ?tr \<Longrightarrow> length (rows s) = N \<and> size1 s = xb"
    using trace_shape[of y "zeros N xb" u ?A _ ?K ?B "[0..<dim1 y]"] y u z wA by simp
  have st1: "stack1 ?tr = Inr (stacked N xb ?tr)"
    using ne sh by (rule stack1_ok)
  have st2: "stack1 (map (readout2 ?L1 ?L2) ?tr) = Inr (stacked N zh (map (readout2 ?L1 ?L2) ?tr))"
  proof (rule stack1_ok)
    show "map (readout2 ?L1 ?L2) ?tr \<noteq> []" using ne by simp
  next
    fix s assume "s \<in> set (map (readout2 ?L1 ?L2) ?tr)"
    then obtain s' where "s' \<in> set ?tr" "s = readout2 ?L1 ?L2 s'" by auto
    with sh[of s'] wL show "length (rows s) = N \<and> size1 s = zh"
      by (simp add: readout2_def)
  qed
  show ?thesis
    unfolding Optim1_forward_def Let_def
    using loop st1 st2 y(1) xb by (simp add: bind_err_Inr)
qed


lemma stacked_nth:
  "n < N \<Longrightarrow> t < length xs \<Longrightarrow> batches (stacked N D xs) ! n ! t = rows (xs ! t) ! n"
  by (simp add: stacked_def)

lemma stacked_shape:
  "length (batches (stacked N D xs)) = N" "dim1 (stacked N D xs) = length xs"
  "dim2 (stacked N D xs) = D"
  by (simp_all add: stacked_def)

lemma stacked_valid3:
  assumes "\<And>s. s \<in> set xs \<Longrightarrow> length (rows s) = N \<and> (\<forall>r \<in> set (rows s). length r = D)"
  shows "valid3 N (length xs) D (stacked N D xs)"
  unfolding valid3_def stacked_def using assms by (auto simp: all_set_conv_all_nth)

lemma prefix3_stacked: "prefix3 n (stacked N D xs) = stacked N D (take n xs)"
  by (simp add: prefix3_def stacked_def take_map)

lemma sel_prefix3: "t < n \<Longrightarrow> sel (prefix3 n y) t = sel y t"
  by (simp add: sel_def prefix3_def)

lemma length_affine: "length (weight l) = length (bias l) \<Longrightarrow> length (affine l v) = length (bias l)"
  by (simp add: affine_def)

lemma length_vadd: "length (vadd a b) = min (length a) (length b)"
  by (simp add: vadd_def)

lemma step2_rows_len:
  assumes "length (weight A) = D" "length (bias A) = D" "length (weight K) = D" "length (bias K) = D"
    "length (weight B) = D" "length (bias B) = D"
    and "r \<in> set (rows (step2 A K B x y_t u_t))"
  shows "length r = D"
proof -
  from assms(7) obtain a k b where "r = vadd (vadd (affine A a) (affine K k)) (affine B b)"
    by (auto simp: step2_def dest!: set_zip_leftD set_zip_rightD elim!: in_set_zipE)
  then show ?thesis using assms(1-6) by (simp add: length_vadd length_affine)
qed


lemma trace_rows_len:
  assumes "length (weight A) = D" "length (bias A) = D" "length (weight K) = D" "length (bias K) = D"
    "length (weight B) = D" "length (bias B) = D"
    and "\<forall>r \<in> set (rows x). length r = D" and "s \<in> set (trace A K B y u ts x)"
  shows "\<forall>r \<in> set (rows s). length r = D"
  using assms(7,8)
proof (induction ts arbitrary: x)
  case Nil
  then show ?case by simp
next
  case (Cons t ts)
  let ?x' = "step2 A K B x (sel y t) (sel u t)"
  have x': "\<forall>r \<in> set (rows ?x'). length r = D"
    using step2_rows_len[OF assms(1-6)] by blast
  from Cons.prems(2) have "s = x \<or> s \<in> set (trace A K B y u ts ?x')" by simp
  then show ?case
  proof
    assume "s = x" with Cons.prems(1) show ?thesis by simp
  next
    assume "s \<in> set (trace A K B y u ts ?x')"
    with x' show ?thesis by (rule Cons.IH)
  qed
qed

lemma Optim1_weights:
  assumes "Optim1_init xb ys us yh zh p"
  shows "length (weight (Optim1Cell.W_A (Optim1.rnn_cell p))) = xb"
    "length (bias (Optim1Cell.W_A (Optim1.rnn_cell p))) = xb"
    "length (weight (Optim1Cell.W_K (Optim1.rnn_cell p))) = xb"
    "length (bias (Optim1Cell.W_K (Optim1.rnn_cell p))) = xb"
    "length (weight (Optim1Cell.W_B (Optim1.rnn_cell p))) = xb"
    "length (bias (Optim1Cell.W_B (Optim1.rnn_cell p))) = xb"
  using assms by (simp_all add: Optim1_init_def Optim1Cell_init_def Linear_init_def)

text \<open>The states and readouts of a valid call, element by element.\<close>

lemma Optim1_forward_elems:
  assumes init: "Optim1_init xb ys us yh zh p"
    and y: "valid3 N T ys y" and u: "valid3 N T us u" and T: "0 < T"
  shows "\<exists>z x. Optim1_forward p y u = Inr (z, x) \<and> valid3 N T xb x \<and>
           length (batches z) = N \<and> dim1 z = T \<and> dim2 z = zh \<and>
           (\<forall>n<N. batches x ! n ! 0 = replicate xb 0 \<and>
              (\<forall>t<T. batches z ! n ! t =
                 readout (Cz1_lin (nonlinear_cellZ p)) (Cz1_lin2 (nonlinear_cellZ p))
                   (batches x ! n ! t)) \<and>
              (\<forall>t. Suc t < T \<longrightarrow> batches x ! n ! Suc t =
                 vadd (vadd (affine (Optim1Cell.W_A (Optim1.rnn_cell p)) (batches x ! n ! t))
                            (affine (Optim1Cell.W_K (Optim1.rnn_cell p)) (batches y ! n ! t)))
                      (affine (Optim1Cell.W_B (Optim1.rnn_cell p)) (batches u ! n ! t))))"
proof -
  let ?A = "Optim1Cell.W_A (Optim1.rnn_cell p)"
  let ?K = "Optim1Cell.W_K (Optim1.rnn_cell p)"
  let ?B = "Optim1Cell.W_B (Optim1.rnn_cell p)"
  let ?L1 = "Cz1_lin (nonlinear_cellZ p)"
  let ?L2 = "Cz1_lin2 (nonlinear_cellZ p)"
  let ?tr = "trace ?A ?K ?B y u [0..<T] (zeros N xb)"
  let ?x = "stacked N xb ?tr"
  let ?z = "stacked N zh (map (readout2 ?L1 ?L2) ?tr)"
  from y u have sh: "length (batches y) = N" "dim2 y = ys" "dim1 y = T"
    "length (batches u) = N" "dim2 u = us" "dim1 u = T"
    by (simp_all add: valid3_def)
  have fw: "Optim1_forward p y u = Inr (?z, ?x)"
    using Optim1_forward_ok[OF init sh(1,2,4,5)] sh(3,6) T by simp
  have len: "length ?tr = T" by (simp add: length_trace)
  have z0: "length (rows (zeros N xb)) = N" "size1 (zeros N xb) = xb"
    "\<forall>r \<in> set (rows (zeros N xb)). length r = xb"
    by (simp_all add: zeros_def)
  have trsh: "\<And>s. s \<in> set ?tr \<Longrightarrow> length (rows s) = N"
    using trace_shape[of y "zeros N xb" u ?A _ ?K ?B "[0..<T]"] sh z0 Optim1_weights(1)[OF init]
    by simp
  have trlen: "\<And>s. s \<in> set ?tr \<Longrightarrow> \<forall>r \<in> set (rows s). length r = xb"
    using trace_rows_len[OF Optim1_weights[OF init] z0(3)] by blast
  have vx: "valid3 N T xb ?x"
    using stacked_valid3[of ?tr N xb] trsh trlen len by simp
  have shz: "length (batches ?z) = N" "dim1 ?z = T" "dim2 ?z = zh"
    by (simp_all add: stacked_shape len)
  have elems: "batches ?x ! n ! 0 = replicate xb 0 \<and>
      (\<forall>t<T. batches ?z ! n ! t = readout ?L1 ?L2 (batches ?x ! n ! t)) \<and>
      (\<forall>t. Suc t < T \<longrightarrow> batches ?x ! n ! Suc t =
         vadd (vadd (affine ?A (batches ?x ! n ! t)) (affine ?K (batches y ! n ! t)))
              (affine ?B (batches u ! n ! t)))" if n: "n < N" for n
  proof (intro conjI allI impI)
    show "batches ?x ! n ! 0 = replicate xb 0"
      using n T len by (simp add: stacked_nth trace_upt_0 zeros_def)
  next
    fix t assume t: "t < T"
    then have "?tr ! t \<in> set ?tr" using len by simp
    then have "n < length (rows (?tr ! t))" using trsh n by simp
    then show "batches ?z ! n ! t = readout ?L1 ?L2 (batches ?x ! n ! t)"
      using n t len by (simp add: stacked_nth readout2_def)
  next
    fix t assume t: "Suc t < T"
    then have "?tr ! t \<in> set ?tr" using len by simp
    then have l: "length (rows (?tr ! t)) = N" using trsh by simp
    have "batches ?x ! n ! Suc t = rows (?tr ! Suc t) ! n"
      using n t len by (simp add: stacked_nth)
    also have "?tr ! Suc t = step2 ?A ?K ?B (?tr ! t) (sel y t) (sel u t)"
      using trace_upt_Suc[of 0 t T ?A ?K ?B y u] t by simp
    also have "rows \<dots> ! n = vadd (vadd (affine ?A (rows (?tr ! t) ! n))
        (affine ?K (rows (sel y t) ! n))) (affine ?B (rows (sel u t) ! n))"
      using l n sh by (intro step2_row) (simp_all add: sel_shape)
    also have "rows (?tr ! t) ! n = batches ?x ! n ! t"
      using n t len by (simp add: stacked_nth)
    finally show "batches ?x ! n ! Suc t =
         vadd (vadd (affine ?A (batches ?x ! n ! t)) (affine ?K (batches y ! n ! t)))
              (affine ?B (batches u ! n ! t))"
      using n sh by (simp add: sel_row)
  qed
  from fw vx shz elems show ?thesis by blast
qed


lemma dot_zero: "dot v (replicate i 0) = 0"
proof (induction v arbitrary: i)
  case Nil
  show ?case by (simp add: dot_def)
next
  case (Cons a v)
  from Cons[of "i - 1"] show ?case by (cases i) (simp_all add: dot_def)
qed

lemma affine_zero_Linear: "affine (zero_Linear i out) v = replicate out 0"
  by (simp add: affine_def zero_Linear_def dot_zero map_replicate_const)

lemma vadd_zero_left: "length w = n \<Longrightarrow> vadd (replicate n 0) w = w"
  by (rule nth_equalityI) (simp_all add: vadd_def)

lemma affine_Nil: "length (weight l) = length (bias l) \<Longrightarrow> affine l [] = bias l"
  by (rule nth_equalityI) (simp_all add: affine_def dot_def)


section \<open>Properties of Stage 1\<close>

lemma ex_p_init: "Optim1_init 1 1 1 1 1 ex_p"
  by (simp add: Optim1_init_def Optim1Cell_init_def NonlinearOptim1CellZ_init_def Linear_init_def
      ex_p_def ex_cell_def ex_dec_def)

lemma ex_y_valid: "valid3 1 2 1 ex_y"
  by (simp add: valid3_def ex_y_def)

lemma ex_u_valid: "valid3 1 2 1 ex_u"
  by (simp add: valid3_def ex_u_def)

text \<open>
  Claim C1. On inputs \<open>y\<close> of shape (B, T, Dy) and \<open>u\<close> of shape (B, T, Du) with
  \<open>T \<ge> 1\<close>, \<^verbatim>\<open>Optim1.forward\<close> returns a state sequence of shape (B, T, Dxb): exactly
  the states \<open>x[0..T-1]\<close>, so the last computed update \<open>x[T]\<close> is not part of it. For
  every batch element, \<open>x[0] = 0\<close> and \<open>x[t+1] = W_A(x[t]) + W_K(y[t]) + W_B(u[t])\<close> for
  \<open>t = 0..T-2\<close>, each map being affine (weight and bias).
\<close>

theorem Optim1_states_recurrence:
  assumes "Optim1_init xb ys us yh zh p" and "valid3 N T ys y" and "valid3 N T us u" and "0 < T"
  shows "\<exists>z x. Optim1_forward p y u = Inr (z, x) \<and> valid3 N T xb x \<and>
           (\<forall>n<N. batches x ! n ! 0 = replicate xb 0 \<and>
              (\<forall>t. Suc t < T \<longrightarrow> batches x ! n ! Suc t =
                 vadd (vadd (affine (Optim1Cell.W_A (Optim1.rnn_cell p)) (batches x ! n ! t))
                            (affine (Optim1Cell.W_K (Optim1.rnn_cell p)) (batches y ! n ! t)))
                      (affine (Optim1Cell.W_B (Optim1.rnn_cell p)) (batches u ! n ! t))))"
  using Optim1_forward_elems[OF assms] by blast

theorem Optim1_states_recurrence_witness:
  "Optim1_init 1 1 1 1 1 ex_p \<and> valid3 1 2 1 ex_y \<and> valid3 1 2 1 ex_u \<and>
   (\<exists>z x. Optim1_forward ex_p ex_y ex_u = Inr (z, x) \<and> valid3 1 2 1 x \<and>
      batches x ! 0 ! 0 = [0] \<and> batches x ! 0 ! 1 = [6])"
proof -
  from Optim1_states_recurrence[OF ex_p_init ex_y_valid ex_u_valid]
  obtain z x where fw: "Optim1_forward ex_p ex_y ex_u = Inr (z, x)" and v: "valid3 1 2 1 x"
    and rec: "\<forall>n<1. batches x ! n ! 0 = replicate 1 0 \<and>
              (\<forall>t. Suc t < 2 \<longrightarrow> batches x ! n ! Suc t =
                 vadd (vadd (affine (Optim1Cell.W_A (Optim1.rnn_cell ex_p)) (batches x ! n ! t))
                            (affine (Optim1Cell.W_K (Optim1.rnn_cell ex_p)) (batches ex_y ! n ! t)))
                      (affine (Optim1Cell.W_B (Optim1.rnn_cell ex_p)) (batches ex_u ! n ! t)))"
    by auto
  from rec have x0: "batches x ! 0 ! 0 = [0]" by simp
  from rec have "batches x ! 0 ! Suc 0 =
      vadd (vadd (affine (Optim1Cell.W_A (Optim1.rnn_cell ex_p)) (batches x ! 0 ! 0))
                 (affine (Optim1Cell.W_K (Optim1.rnn_cell ex_p)) (batches ex_y ! 0 ! 0)))
           (affine (Optim1Cell.W_B (Optim1.rnn_cell ex_p)) (batches ex_u ! 0 ! 0))"
    by simp
  with x0 have x1: "batches x ! 0 ! 1 = [6]"
    by (simp add: ex_p_def ex_cell_def ex_y_def ex_u_def affine_def dot_def vadd_def)
  from fw v x0 x1 ex_p_init ex_y_valid ex_u_valid show ?thesis by blast
qed


text \<open>
  Claim C3. For every time index \<open>t\<close> in \<open>0..T-1\<close> and every batch element, the prediction
  \<open>z_hats1[:, t, :]\<close> is the readout \<open>sigmoid(lin2(relu(lin1(\<cdot>))))\<close> of the state stored
  at the same index \<open>t\<close> of \<open>behavStates\<close>, with the same readout parameters at every step.
\<close>

theorem Optim1_readout_same_index:
  assumes "Optim1_init xb ys us yh zh p" and "valid3 N T ys y" and "valid3 N T us u" and "0 < T"
  shows "\<exists>z x. Optim1_forward p y u = Inr (z, x) \<and>
           length (batches z) = N \<and> dim1 z = T \<and> dim2 z = zh \<and>
           (\<forall>n<N. \<forall>t<T. batches z ! n ! t =
              map sigmoid (affine (Cz1_lin2 (nonlinear_cellZ p))
                (map relu (affine (Cz1_lin (nonlinear_cellZ p)) (batches x ! n ! t)))))"
  using Optim1_forward_elems[OF assms] unfolding readout_def by blast

theorem Optim1_readout_same_index_witness:
  "Optim1_init 1 1 1 1 1 ex_p \<and> valid3 1 2 1 ex_y \<and> valid3 1 2 1 ex_u \<and>
   (\<exists>z x. Optim1_forward ex_p ex_y ex_u = Inr (z, x) \<and>
      batches z ! 0 ! 1 = map sigmoid (affine (Cz1_lin2 (nonlinear_cellZ ex_p))
                (map relu (affine (Cz1_lin (nonlinear_cellZ ex_p)) (batches x ! 0 ! 1)))))"
proof -
  from Optim1_readout_same_index[OF ex_p_init ex_y_valid ex_u_valid]
  obtain z x where "Optim1_forward ex_p ex_y ex_u = Inr (z, x)"
    and "\<forall>n<1. \<forall>t<2. batches z ! n ! t =
              map sigmoid (affine (Cz1_lin2 (nonlinear_cellZ ex_p))
                (map relu (affine (Cz1_lin (nonlinear_cellZ ex_p)) (batches x ! n ! t))))"
    by auto
  then show ?thesis using ex_p_init ex_y_valid ex_u_valid by auto
qed

text \<open>
  Claim C4. Whatever the parameters and the inputs of valid shapes, the state at time
  index 0 returned by \<^verbatim>\<open>Optim1.forward\<close> is the zero vector of size Dxb, for every batch
  element: it is a constant, not a parameter of the instance.
\<close>

theorem Optim1_initial_state_zero:
  assumes "Optim1_init xb ys us yh zh p" and "valid3 N T ys y" and "valid3 N T us u" and "0 < T"
  shows "\<exists>z x. Optim1_forward p y u = Inr (z, x) \<and>
           (\<forall>n<N. batches x ! n ! 0 = replicate xb 0)"
  using Optim1_forward_elems[OF assms] by blast

theorem Optim1_initial_state_zero_witness:
  "Optim1_init 1 1 1 1 1 ex_p \<and> valid3 1 2 1 ex_y \<and> valid3 1 2 1 ex_u \<and>
   (\<exists>z x. Optim1_forward ex_p ex_y ex_u = Inr (z, x) \<and> batches x ! 0 ! 0 = [0])"
proof -
  from Optim1_initial_state_zero[OF ex_p_init ex_y_valid ex_u_valid]
  obtain z x where "Optim1_forward ex_p ex_y ex_u = Inr (z, x)"
    and "\<forall>n<1. batches x ! n ! 0 = replicate 1 0"
    by auto
  then show ?thesis using ex_p_init ex_y_valid ex_u_valid by auto
qed


lemma upt_small: "[0..<2] = [0, 1]" "[0..<1] = [0]"
  by (simp_all add: upt_rec)

lemmas eval_defs =
  Optim1_forward_def Optim1Cell_forward_def NonlinearOptim1CellZ_forward_def
  Linear_forward_def add2_def bsize_def expand_def select1_def stack1_def zeros_def
  bind_err_def map_elems_def affine_def dot_def vadd_def relu_def sigmoid_def same_shape_def
  zero_Linear_def

lemmas init_defs =
  Optim1_init_def Optim1Cell_init_def NonlinearOptim1CellZ_init_def Linear_init_def

text \<open>
  Claim C6. When the maps \<open>W_A\<close> and \<open>W_K\<close> of Stage 1 are zero (weight and bias), the
  states are \<open>x[0] = 0\<close> and \<open>x[t+1] = W_B(u[t])\<close>: they depend neither on \<open>y\<close> nor on
  earlier states.
\<close>

theorem Optim1_zero_A_K_accumulates_input:
  assumes "Optim1_init xb ys us yh zh p" and "valid3 N T ys y" and "valid3 N T us u" and "0 < T"
    and "Optim1Cell.W_A (Optim1.rnn_cell p) = zero_Linear xb xb"
    and "Optim1Cell.W_K (Optim1.rnn_cell p) = zero_Linear ys xb"
  shows "\<exists>z x. Optim1_forward p y u = Inr (z, x) \<and> valid3 N T xb x \<and>
           (\<forall>n<N. batches x ! n ! 0 = replicate xb 0 \<and>
              (\<forall>t. Suc t < T \<longrightarrow> batches x ! n ! Suc t =
                 affine (Optim1Cell.W_B (Optim1.rnn_cell p)) (batches u ! n ! t)))"
proof -
  let ?B = "Optim1Cell.W_B (Optim1.rnn_cell p)"
  have lenB: "length (affine ?B v) = xb" for v
    using Optim1_weights(5,6)[OF assms(1)] by (simp add: length_affine)
  have "vadd (vadd (affine (zero_Linear xb xb) a) (affine (zero_Linear ys xb) k)) (affine ?B v)
        = affine ?B v" for a k v
    using lenB[of v] by (simp add: affine_zero_Linear vadd_zero_left)
  with Optim1_forward_elems[OF assms(1-4)] assms(5,6) show ?thesis
    by auto
qed

lemma ex_p_zeroAK_init: "Optim1_init 1 1 1 1 1 ex_p_zeroAK"
  by (simp add: init_defs ex_p_zeroAK_def ex_dec0_def zero_Linear_def)

theorem Optim1_zero_A_K_accumulates_input_witness:
  "Optim1_init 1 1 1 1 1 ex_p_zeroAK \<and> valid3 1 2 1 ex_y \<and> valid3 1 2 1 ex_u \<and>
   Optim1Cell.W_A (Optim1.rnn_cell ex_p_zeroAK) = zero_Linear 1 1 \<and>
   Optim1Cell.W_K (Optim1.rnn_cell ex_p_zeroAK) = zero_Linear 1 1 \<and>
   (\<exists>z x. Optim1_forward ex_p_zeroAK ex_y ex_u = Inr (z, x) \<and>
      batches x ! 0 ! 0 = [0] \<and> batches x ! 0 ! 1 = [3])"
proof -
  have A: "Optim1Cell.W_A (Optim1.rnn_cell ex_p_zeroAK) = zero_Linear 1 1"
    and K: "Optim1Cell.W_K (Optim1.rnn_cell ex_p_zeroAK) = zero_Linear 1 1"
    by (simp_all add: ex_p_zeroAK_def)
  from Optim1_zero_A_K_accumulates_input[OF ex_p_zeroAK_init ex_y_valid ex_u_valid _ A K]
  obtain z x where fw: "Optim1_forward ex_p_zeroAK ex_y ex_u = Inr (z, x)"
    and rec: "\<forall>n<1. batches x ! n ! 0 = replicate 1 0 \<and>
              (\<forall>t. Suc t < 2 \<longrightarrow> batches x ! n ! Suc t =
                 affine (Optim1Cell.W_B (Optim1.rnn_cell ex_p_zeroAK)) (batches ex_u ! n ! t))"
    by auto
  from rec have x0: "batches x ! 0 ! 0 = [0]" by simp
  from rec have "batches x ! 0 ! Suc 0 =
      affine (Optim1Cell.W_B (Optim1.rnn_cell ex_p_zeroAK)) (batches ex_u ! 0 ! 0)"
    by simp
  then have x1: "batches x ! 0 ! 1 = [3]"
    by (simp add: ex_p_zeroAK_def ex_u_def affine_def dot_def)
  from fw x0 x1 A K ex_p_zeroAK_init ex_y_valid ex_u_valid show ?thesis by blast
qed

text \<open>
  Claim C7, as the code has it. With \<open>u_size = 0\<close> the map \<open>W_B\<close> still exists, with a
  weight of shape (Dxb, 0) and a bias of size Dxb, and on an input stream of width 0 its
  term in the state update is that bias at every step, whatever \<open>u\<close> is:
  \<open>x[t+1] = W_A(x[t]) + W_K(y[t]) + bias(W_B)\<close>. The term is zero only when the bias is.
\<close>

theorem Optim1_no_input_term_is_bias:
  assumes "Optim1_init xb ys 0 yh zh p" and "valid3 N T ys y" and "valid3 N T 0 u" and "0 < T"
  shows "Linear_init 0 xb (Optim1Cell.W_B (Optim1.rnn_cell p)) \<and>
         (\<exists>z x. Optim1_forward p y u = Inr (z, x) \<and> valid3 N T xb x \<and>
           (\<forall>n<N. batches x ! n ! 0 = replicate xb 0 \<and>
              (\<forall>t. Suc t < T \<longrightarrow> batches x ! n ! Suc t =
                 vadd (vadd (affine (Optim1Cell.W_A (Optim1.rnn_cell p)) (batches x ! n ! t))
                            (affine (Optim1Cell.W_K (Optim1.rnn_cell p)) (batches y ! n ! t)))
                      (bias (Optim1Cell.W_B (Optim1.rnn_cell p))))))"
proof -
  let ?B = "Optim1Cell.W_B (Optim1.rnn_cell p)"
  from assms(1) have B: "Linear_init 0 xb ?B"
    by (simp add: Optim1_init_def Optim1Cell_init_def)
  have u: "batches u ! n ! t = []" if "n < N" "Suc t < T" for n t
  proof -
    from assms(3) that have "batches u ! n \<in> set (batches u)" "length (batches u ! n) = T"
      by (simp_all add: valid3_def)
    with that have "batches u ! n ! t \<in> set (batches u ! n)" by simp
    with assms(3) \<open>batches u ! n \<in> set (batches u)\<close> show ?thesis
      by (auto simp: valid3_def)
  qed
  have "affine ?B [] = bias ?B"
    using Optim1_weights(5,6)[OF assms(1)] by (simp add: affine_Nil)
  with Optim1_forward_elems[OF assms] u B show ?thesis
    by auto
qed

lemma ex_p_noinput_init: "Optim1_init 1 1 0 1 1 ex_p_noinput"
  by (simp add: init_defs ex_p_noinput_def ex_dec0_def zero_Linear_def)

lemma ex_u_empty_valid: "valid3 1 2 0 ex_u_empty"
  by (simp add: valid3_def ex_u_empty_def)

theorem Optim1_no_input_term_is_bias_witness:
  "Optim1_init 1 1 0 1 1 ex_p_noinput \<and> valid3 1 2 1 ex_y \<and> valid3 1 2 0 ex_u_empty \<and>
   Linear_init 0 1 (Optim1Cell.W_B (Optim1.rnn_cell ex_p_noinput)) \<and>
   (\<exists>z x. Optim1_forward ex_p_noinput ex_y ex_u_empty = Inr (z, x) \<and>
      batches x ! 0 ! 0 = [0] \<and> batches x ! 0 ! 1 = [1])"
proof -
  from Optim1_no_input_term_is_bias[OF ex_p_noinput_init ex_y_valid ex_u_empty_valid]
  obtain z x where B: "Linear_init 0 1 (Optim1Cell.W_B (Optim1.rnn_cell ex_p_noinput))"
    and fw: "Optim1_forward ex_p_noinput ex_y ex_u_empty = Inr (z, x)"
    and rec: "\<forall>n<1. batches x ! n ! 0 = replicate 1 0 \<and>
              (\<forall>t. Suc t < 2 \<longrightarrow> batches x ! n ! Suc t =
                 vadd (vadd (affine (Optim1Cell.W_A (Optim1.rnn_cell ex_p_noinput)) (batches x ! n ! t))
                            (affine (Optim1Cell.W_K (Optim1.rnn_cell ex_p_noinput)) (batches ex_y ! n ! t)))
                      (bias (Optim1Cell.W_B (Optim1.rnn_cell ex_p_noinput))))"
    by auto
  from rec have x0: "batches x ! 0 ! 0 = [0]" by simp
  from rec have "batches x ! 0 ! Suc 0 =
      vadd (vadd (affine (Optim1Cell.W_A (Optim1.rnn_cell ex_p_noinput)) (batches x ! 0 ! 0))
                 (affine (Optim1Cell.W_K (Optim1.rnn_cell ex_p_noinput)) (batches ex_y ! 0 ! 0)))
           (bias (Optim1Cell.W_B (Optim1.rnn_cell ex_p_noinput)))"
    by simp
  with x0 have x1: "batches x ! 0 ! 1 = [1]"
    by (simp add: ex_p_noinput_def ex_y_def affine_def dot_def vadd_def zero_Linear_def)
  from B fw x0 x1 ex_p_noinput_init ex_y_valid ex_u_empty_valid show ?thesis by blast
qed

text \<open>
  Claim C7 as stated fails: with \<open>u_size = 0\<close>, zero maps \<open>W_A\<close> and \<open>W_K\<close> and the bias
  \<open>[1]\<close> in \<open>W_B\<close>, the state after one step is \<open>[1]\<close>, while the update without the
  input-gain term, \<open>W_A(x[0]) + W_K(y[0])\<close>, is \<open>[0]\<close>.
\<close>

theorem Optim1_no_input_term_not_zero:
  "Optim1_init 1 1 0 1 1 ex_p_noinput \<and> valid3 1 2 1 ex_y \<and> valid3 1 2 0 ex_u_empty \<and>
   Optim1_forward ex_p_noinput ex_y ex_u_empty =
     Inr (\<lparr>dim1 = 2, dim2 = 1, batches = [[[1/2], [1/2]]]\<rparr>,
          \<lparr>dim1 = 2, dim2 = 1, batches = [[[0], [1]]]\<rparr>) \<and>
   vadd (affine (Optim1Cell.W_A (Optim1.rnn_cell ex_p_noinput)) [0])
        (affine (Optim1Cell.W_K (Optim1.rnn_cell ex_p_noinput)) [1]) = [0]"
proof -
  have "Optim1_forward ex_p_noinput ex_y ex_u_empty =
     Inr (\<lparr>dim1 = 2, dim2 = 1, batches = [[[1/2], [1/2]]]\<rparr>,
          \<lparr>dim1 = 2, dim2 = 1, batches = [[[0], [1]]]\<rparr>)"
    by (simp add: eval_defs ex_p_noinput_def ex_y_def ex_u_empty_def ex_dec0_def upt_small)
  moreover have "vadd (affine (Optim1Cell.W_A (Optim1.rnn_cell ex_p_noinput)) [0])
        (affine (Optim1Cell.W_K (Optim1.rnn_cell ex_p_noinput)) [1]) = [0]"
    by (simp add: eval_defs ex_p_noinput_def)
  ultimately show ?thesis
    using ex_p_noinput_init ex_y_valid ex_u_empty_valid by simp
qed


lemma trace_take:
  assumes "n \<le> T"
  shows "take n (trace A K B y u [0..<T] x) = trace A K B y u [0..<n] x"
proof -
  from assms have "[0..<T] = [0..<n] @ [n..<T]"
    by (metis le_add_diff_inverse upt_add_eq_append zero_le)
  then show ?thesis by (simp add: trace_append length_trace)
qed

lemma trace_prefix3:
  "trace A K B (prefix3 n y) (prefix3 n u) [0..<n] x = trace A K B y u [0..<n] x"
  by (rule trace_cong) (simp add: sel_prefix3)

text \<open>
  Claim C8. For one instance with fixed parameters, the outputs on the length-\<open>n\<close>
  prefixes of the inputs are the first \<open>n\<close> time steps of the outputs on the whole
  inputs (\<open>1 \<le> n \<le> T\<close>; in the claim \<open>n = 5\<close> and \<open>T = 8\<close>). The forward pass is a function
  of the parameters and the inputs only: nothing is kept from one call to the next.
\<close>

theorem Optim1_prefix_invariance:
  assumes "Optim1_init xb ys us yh zh p" and "valid3 N T ys y" and "valid3 N T us u"
    and "0 < n" and "n \<le> T"
  shows "\<exists>z x z' x'. Optim1_forward p y u = Inr (z, x) \<and>
           Optim1_forward p (prefix3 n y) (prefix3 n u) = Inr (z', x') \<and>
           prefix3 n z = z' \<and> prefix3 n x = x'"
proof -
  let ?A = "Optim1Cell.W_A (Optim1.rnn_cell p)"
  let ?K = "Optim1Cell.W_K (Optim1.rnn_cell p)"
  let ?B = "Optim1Cell.W_B (Optim1.rnn_cell p)"
  let ?r = "readout2 (Cz1_lin (nonlinear_cellZ p)) (Cz1_lin2 (nonlinear_cellZ p))"
  let ?tr = "trace ?A ?K ?B y u [0..<T] (zeros N xb)"
  let ?tr' = "trace ?A ?K ?B y u [0..<n] (zeros N xb)"
  from assms(2,3) have sh: "length (batches y) = N" "dim2 y = ys" "dim1 y = T"
    "length (batches u) = N" "dim2 u = us" "dim1 u = T"
    by (simp_all add: valid3_def)
  from assms(4,5) have T: "0 < T" by simp
  have full: "Optim1_forward p y u = Inr (stacked N zh (map ?r ?tr), stacked N xb ?tr)"
    using Optim1_forward_ok[OF assms(1) sh(1,2,4,5)] sh(3,6) T by simp
  have psh: "length (batches (prefix3 n y)) = N" "dim2 (prefix3 n y) = ys"
    "length (batches (prefix3 n u)) = N" "dim2 (prefix3 n u) = us"
    "dim1 (prefix3 n y) = n" "dim1 (prefix3 n u) = n"
    using sh assms(5) by (simp_all add: prefix3_def)
  have pre: "Optim1_forward p (prefix3 n y) (prefix3 n u) =
             Inr (stacked N zh (map ?r ?tr'), stacked N xb ?tr')"
    using Optim1_forward_ok[OF assms(1) psh(1-4)] psh(5,6) assms(4)
    by (simp add: trace_prefix3)
  have tk: "take n ?tr = ?tr'"
    using assms(5) by (rule trace_take)
  have "prefix3 n (stacked N zh (map ?r ?tr)) = stacked N zh (map ?r ?tr')"
    and "prefix3 n (stacked N xb ?tr) = stacked N xb ?tr'"
    using tk by (simp_all add: prefix3_stacked take_map)
  with full pre show ?thesis by simp
qed

lemma ex_y8_valid: "valid3 1 8 1 ex_y8"
  by (simp add: valid3_def ex_y8_def)

lemma ex_u8_valid: "valid3 1 8 1 ex_u8"
  by (simp add: valid3_def ex_u8_def)

theorem Optim1_prefix_invariance_witness:
  "Optim1_init 1 1 1 1 1 ex_p \<and> valid3 1 8 1 ex_y8 \<and> valid3 1 8 1 ex_u8 \<and>
   prefix3 5 ex_y8 = \<lparr>dim1 = 5, dim2 = 1, batches = [[[1], [2], [3], [4], [5]]]\<rparr> \<and>
   (\<exists>z x z' x'. Optim1_forward ex_p ex_y8 ex_u8 = Inr (z, x) \<and>
      Optim1_forward ex_p (prefix3 5 ex_y8) (prefix3 5 ex_u8) = Inr (z', x') \<and>
      prefix3 5 z = z' \<and> prefix3 5 x = x')"
proof -
  have "prefix3 5 ex_y8 = \<lparr>dim1 = 5, dim2 = 1, batches = [[[1], [2], [3], [4], [5]]]\<rparr>"
    by (simp add: prefix3_def ex_y8_def)
  with Optim1_prefix_invariance[OF ex_p_init ex_y8_valid ex_u8_valid, of 5]
    ex_p_init ex_y8_valid ex_u8_valid
  show ?thesis by simp
qed

text \<open>
  Claim C10. For any two inputs of the same valid shapes, the outputs at time index 0
  are the same: the state is the zero vector and the prediction is the readout of the
  zero vector, for every batch element, whatever the input streams contain.
\<close>

theorem Optim1_time0_independent_of_input:
  assumes "Optim1_init xb ys us yh zh p"
    and "valid3 N T ys y" and "valid3 N T us u"
    and "valid3 N T ys y'" and "valid3 N T us u'" and "0 < T"
  shows "\<exists>z x z' x'. Optim1_forward p y u = Inr (z, x) \<and> Optim1_forward p y' u' = Inr (z', x') \<and>
           (\<forall>n<N. batches x ! n ! 0 = replicate xb 0 \<and> batches x' ! n ! 0 = replicate xb 0 \<and>
              batches z ! n ! 0 =
                map sigmoid (affine (Cz1_lin2 (nonlinear_cellZ p))
                  (map relu (affine (Cz1_lin (nonlinear_cellZ p)) (replicate xb 0)))) \<and>
              batches z' ! n ! 0 = batches z ! n ! 0)"
proof -
  from Optim1_forward_elems[OF assms(1,2,3,6)] obtain z x where
    a: "Optim1_forward p y u = Inr (z, x)"
    "\<forall>n<N. batches x ! n ! 0 = replicate xb 0 \<and>
       (\<forall>t<T. batches z ! n ! t =
          readout (Cz1_lin (nonlinear_cellZ p)) (Cz1_lin2 (nonlinear_cellZ p)) (batches x ! n ! t))"
    by blast
  from Optim1_forward_elems[OF assms(1,4,5,6)] obtain z' x' where
    b: "Optim1_forward p y' u' = Inr (z', x')"
    "\<forall>n<N. batches x' ! n ! 0 = replicate xb 0 \<and>
       (\<forall>t<T. batches z' ! n ! t =
          readout (Cz1_lin (nonlinear_cellZ p)) (Cz1_lin2 (nonlinear_cellZ p)) (batches x' ! n ! t))"
    by blast
  from a(2) b(2) assms(6) have
    "\<forall>n<N. batches x ! n ! 0 = replicate xb 0 \<and> batches x' ! n ! 0 = replicate xb 0 \<and>
        batches z ! n ! 0 =
          map sigmoid (affine (Cz1_lin2 (nonlinear_cellZ p))
            (map relu (affine (Cz1_lin (nonlinear_cellZ p)) (replicate xb 0)))) \<and>
        batches z' ! n ! 0 = batches z ! n ! 0"
    by (simp add: readout_def)
  with a(1) b(1) show ?thesis by blast
qed

lemma ex_y'_valid: "valid3 1 2 1 ex_y'"
  by (simp add: valid3_def ex_y'_def)

lemma ex_u'_valid: "valid3 1 2 1 ex_u'"
  by (simp add: valid3_def ex_u'_def)

theorem Optim1_time0_independent_of_input_witness:
  "Optim1_init 1 1 1 1 1 ex_p \<and> valid3 1 2 1 ex_y \<and> valid3 1 2 1 ex_u \<and>
   valid3 1 2 1 ex_y' \<and> valid3 1 2 1 ex_u' \<and> ex_y \<noteq> ex_y' \<and> ex_u \<noteq> ex_u' \<and>
   (\<exists>z x z' x'. Optim1_forward ex_p ex_y ex_u = Inr (z, x) \<and>
      Optim1_forward ex_p ex_y' ex_u' = Inr (z', x') \<and>
      batches x ! 0 ! 0 = [0] \<and> batches x' ! 0 ! 0 = [0] \<and>
      batches z ! 0 ! 0 = [1 / 2] \<and> batches z' ! 0 ! 0 = [1 / 2])"
proof -
  from Optim1_time0_independent_of_input[OF ex_p_init ex_y_valid ex_u_valid ex_y'_valid ex_u'_valid]
  obtain z x z' x' where fw: "Optim1_forward ex_p ex_y ex_u = Inr (z, x)"
    "Optim1_forward ex_p ex_y' ex_u' = Inr (z', x')"
    and e: "\<forall>n<1. batches x ! n ! 0 = replicate 1 0 \<and> batches x' ! n ! 0 = replicate 1 0 \<and>
              batches z ! n ! 0 =
                map sigmoid (affine (Cz1_lin2 (nonlinear_cellZ ex_p))
                  (map relu (affine (Cz1_lin (nonlinear_cellZ ex_p)) (replicate 1 0)))) \<and>
              batches z' ! n ! 0 = batches z ! n ! 0"
    by auto
  from e have "batches x ! 0 ! 0 = [0]" "batches x' ! 0 ! 0 = [0]"
    "batches z ! 0 ! 0 = [1 / 2]" "batches z' ! 0 ! 0 = [1 / 2]"
    by (simp_all add: ex_p_def ex_dec_def affine_def dot_def relu_def sigmoid_def)
  moreover have "ex_y \<noteq> ex_y'" "ex_u \<noteq> ex_u'"
    by (simp_all add: ex_y_def ex_y'_def ex_u_def ex_u'_def)
  ultimately show ?thesis
    using fw ex_p_init ex_y_valid ex_u_valid ex_y'_valid ex_u'_valid by blast
qed


section \<open>Properties of Stage 2\<close>

lemma cat2_ok:
  "length (batches a) = length (batches b) \<Longrightarrow> dim1 a = dim1 b \<Longrightarrow> cat2 a b = Inr (cat a b)"
  by (simp add: cat2_def cat_def)

lemma cat_shape:
  "dim1 (cat a b) = dim1 a" "dim2 (cat a b) = dim2 a + dim2 b"
  "length (batches (cat a b)) = min (length (batches a)) (length (batches b))"
  by (simp_all add: cat_def)

lemma cat_elem:
  assumes "n < length (batches a)" "n < length (batches b)"
    and "t < length (batches a ! n)" "t < length (batches b ! n)"
  shows "batches (cat a b) ! n ! t = batches a ! n ! t @ batches b ! n ! t"
  using assms by (simp add: cat_def)

lemma Optim3Cell_forward_ok:
  assumes "Optim3Cell_init xb xn ys us c"
    and "size1 x = xn" "size1 c_t = ys + xb" "size1 u_t = us"
    and "length (rows c_t) = length (rows x)" "length (rows u_t) = length (rows x)"
  shows "Optim3Cell_forward c x c_t u_t =
         Inr (step2 (Optim3Cell.W_A c) (Optim3Cell.W_K c) (Optim3Cell.W_B c) x c_t u_t)"
  unfolding Optim3Cell_forward_def
  using assms by (intro cell_ok) (simp_all add: Optim3Cell_init_def Linear_init_def)

lemma NonlinearOptim3CellY_forward_ok:
  assumes "NonlinearOptim3CellY_init xn yh d" "size1 x = xn"
  shows "NonlinearOptim3CellY_forward d x = Inr (readout2 (Cy2_lin d) (Cy2_lin2 d) x)"
  unfolding NonlinearOptim3CellY_forward_def
  using assms by (intro readout_ok) (simp_all add: NonlinearOptim3CellY_init_def Linear_init_def)

lemma Optim3_loop_ok:
  assumes init: "Optim3_init xb xn ys us yh zh q"
    and c: "length (batches c) = N" "dim2 c = ys + xb"
    and u: "length (batches u) = N" "dim2 u = us"
    and ts: "\<And>t. t \<in> set ts \<Longrightarrow> t < dim1 c \<and> t < dim1 u"
    and x: "length (rows x) = N" "size1 x = xn"
  shows "Optim3_loop q c u ts (x, ys2, xs) =
         Inr (final (Optim3Cell.W_A (Optim3.rnn_cell q)) (Optim3Cell.W_K (Optim3.rnn_cell q))
                (Optim3Cell.W_B (Optim3.rnn_cell q)) c u ts x,
              ys2 @ map (readout2 (Cy2_lin (nonlinear_cellY q)) (Cy2_lin2 (nonlinear_cellY q)))
                (trace (Optim3Cell.W_A (Optim3.rnn_cell q)) (Optim3Cell.W_K (Optim3.rnn_cell q))
                (Optim3Cell.W_B (Optim3.rnn_cell q)) c u ts x),
              xs @ trace (Optim3Cell.W_A (Optim3.rnn_cell q)) (Optim3Cell.W_K (Optim3.rnn_cell q))
                (Optim3Cell.W_B (Optim3.rnn_cell q)) c u ts x)"
  using ts x
proof (induction ts arbitrary: x ys2 xs)
  case Nil
  show ?case by simp
next
  case (Cons t ts)
  let ?c = "Optim3.rnn_cell q"
  let ?r = "readout2 (Cy2_lin (nonlinear_cellY q)) (Cy2_lin2 (nonlinear_cellY q))"
  let ?x' = "step2 (Optim3Cell.W_A ?c) (Optim3Cell.W_K ?c) (Optim3Cell.W_B ?c) x (sel c t) (sel u t)"
  from init have ci: "Optim3Cell_init xb xn ys us ?c"
    and d: "NonlinearOptim3CellY_init xn yh (nonlinear_cellY q)"
    by (simp_all add: Optim3_init_def)
  from Cons.prems(1)[of t] have t: "t < dim1 c" "t < dim1 u" by simp_all
  have cell: "Optim3Cell_forward ?c x (sel c t) (sel u t) = Inr ?x'"
    using ci Cons.prems(2,3) c u by (intro Optim3Cell_forward_ok) (simp_all add: sel_shape)
  have dec: "NonlinearOptim3CellY_forward (nonlinear_cellY q) x = Inr (?r x)"
    using d Cons.prems(3) by (rule NonlinearOptim3CellY_forward_ok)
  have len: "length (rows ?x') = N"
    using Cons.prems(2) c u by (simp add: step2_shape sel_shape)
  have wd: "size1 ?x' = xn"
    using ci by (simp add: step2_size1 Optim3Cell_init_def Linear_init_def)
  have "Optim3_loop q c u (t # ts) (x, ys2, xs) =
        Optim3_loop q c u ts (?x', ys2 @ [?r x], xs @ [x])"
    using t cell dec by (simp add: select1_ok bind_err_Inr)
  also have "\<dots> = Inr (final (Optim3Cell.W_A ?c) (Optim3Cell.W_K ?c) (Optim3Cell.W_B ?c) c u (t # ts) x,
              ys2 @ map ?r (trace (Optim3Cell.W_A ?c) (Optim3Cell.W_K ?c) (Optim3Cell.W_B ?c) c u (t # ts) x),
              xs @ trace (Optim3Cell.W_A ?c) (Optim3Cell.W_K ?c) (Optim3Cell.W_B ?c) c u (t # ts) x)"
    using Cons.prems(1) len wd by (subst Cons.IH) simp_all
  finally show ?case .
qed

lemma Optim3_weights:
  assumes "Optim3_init xb xn ys us yh zh q"
  shows "length (weight (Optim3Cell.W_A (Optim3.rnn_cell q))) = xn"
    "length (bias (Optim3Cell.W_A (Optim3.rnn_cell q))) = xn"
    "length (weight (Optim3Cell.W_K (Optim3.rnn_cell q))) = xn"
    "length (bias (Optim3Cell.W_K (Optim3.rnn_cell q))) = xn"
    "length (weight (Optim3Cell.W_B (Optim3.rnn_cell q))) = xn"
    "length (bias (Optim3Cell.W_B (Optim3.rnn_cell q))) = xn"
  using assms by (simp_all add: Optim3_init_def Optim3Cell_init_def Linear_init_def)

lemma Optim3_forward_ok:
  assumes init: "Optim3_init xb xn ys us yh zh q"
    and b: "length (batches bs) = N" "dim2 bs = xb" "dim1 bs = dim1 y"
    and y: "length (batches y) = N" "dim2 y = ys"
    and u: "length (batches u) = N" "dim2 u = us" "dim1 y \<le> dim1 u"
    and T: "0 < dim1 y"
  shows "Optim3_forward q bs y u =
         Inr (stacked N yh (map (readout2 (Cy2_lin (nonlinear_cellY q)) (Cy2_lin2 (nonlinear_cellY q)))
                (trace (Optim3Cell.W_A (Optim3.rnn_cell q)) (Optim3Cell.W_K (Optim3.rnn_cell q))
                   (Optim3Cell.W_B (Optim3.rnn_cell q)) (cat y bs) u [0..<dim1 y] (zeros N xn))),
              stacked N xn (trace (Optim3Cell.W_A (Optim3.rnn_cell q)) (Optim3Cell.W_K (Optim3.rnn_cell q))
                   (Optim3Cell.W_B (Optim3.rnn_cell q)) (cat y bs) u [0..<dim1 y] (zeros N xn)))"
proof -
  let ?A = "Optim3Cell.W_A (Optim3.rnn_cell q)"
  let ?K = "Optim3Cell.W_K (Optim3.rnn_cell q)"
  let ?B = "Optim3Cell.W_B (Optim3.rnn_cell q)"
  let ?r = "readout2 (Cy2_lin (nonlinear_cellY q)) (Cy2_lin2 (nonlinear_cellY q))"
  let ?c = "cat y bs"
  let ?tr = "trace ?A ?K ?B ?c u [0..<dim1 y] (zeros N xn)"
  from init have xn: "xNeural_size q = xn" and wL: "length (weight (Cy2_lin2 (nonlinear_cellY q))) = yh"
    by (simp_all add: Optim3_init_def NonlinearOptim3CellY_init_def Linear_init_def)
  have csh: "length (batches ?c) = N" "dim2 ?c = ys + xb" "dim1 ?c = dim1 y"
    using b y by (simp_all add: cat_shape)
  have ct: "cat2 y bs = Inr ?c"
    using b y by (simp add: cat2_ok)
  have z: "length (rows (zeros N xn)) = N" "size1 (zeros N xn) = xn"
    by (simp_all add: zeros_def)
  have loop: "Optim3_loop q ?c u [0..<dim1 y] (zeros N xn, [], []) =
              Inr (final ?A ?K ?B ?c u [0..<dim1 y] (zeros N xn), [] @ map ?r ?tr, [] @ ?tr)"
    using init csh(1,2) u(1,2) _ z
  proof (rule Optim3_loop_ok)
    fix t assume "t \<in> set [0..<dim1 y]"
    with u(3) csh(3) show "t < dim1 ?c \<and> t < dim1 u" by simp
  qed
  have ne: "?tr \<noteq> []"
    using T length_trace[of ?A ?K ?B ?c u "[0..<dim1 y]" "zeros N xn"] by auto
  have sh: "\<And>s. s \<in> set ?tr \<Longrightarrow> length (rows s) = N \<and> size1 s = xn"
    using trace_shape[of ?c "zeros N xn" u ?A _ ?K ?B "[0..<dim1 y]"] csh u z
      Optim3_weights(1)[OF init] by simp
  have st1: "stack1 ?tr = Inr (stacked N xn ?tr)"
    using ne sh by (rule stack1_ok)
  have st2: "stack1 (map ?r ?tr) = Inr (stacked N yh (map ?r ?tr))"
  proof (rule stack1_ok)
    show "map ?r ?tr \<noteq> []" using ne by simp
  next
    fix s assume "s \<in> set (map ?r ?tr)"
    then obtain s' where "s' \<in> set ?tr" "s = ?r s'" by auto
    with sh[of s'] wL show "length (rows s) = N \<and> size1 s = yh"
      by (simp add: readout2_def)
  qed
  show ?thesis
    unfolding Optim3_forward_def Let_def
    using ct loop st1 st2 y(1) xn by (simp add: bind_err_Inr)
qed


lemma valid3_elem:
  assumes "valid3 N T D y" "n < N" "t < T"
  shows "length (batches y ! n) = T" "length (batches y ! n ! t) = D"
proof -
  from assms(1,2) have m: "batches y ! n \<in> set (batches y)" by (simp add: valid3_def)
  with assms(1) show l: "length (batches y ! n) = T" by (simp add: valid3_def)
  with assms(3) have "batches y ! n ! t \<in> set (batches y ! n)" by simp
  with assms(1) m show "length (batches y ! n ! t) = D" by (auto simp: valid3_def)
qed

lemma Optim3_forward_elems:
  assumes init: "Optim3_init xb xn ys us yh zh q"
    and b: "valid3 N T xb bs" and y: "valid3 N T ys y" and u: "valid3 N T us u" and T: "0 < T"
  shows "\<exists>yhat x. Optim3_forward q bs y u = Inr (yhat, x) \<and> valid3 N T xn x \<and>
           length (batches yhat) = N \<and> dim1 yhat = T \<and> dim2 yhat = yh \<and>
           (\<forall>n<N. batches x ! n ! 0 = replicate xn 0 \<and>
              (\<forall>t<T. batches yhat ! n ! t =
                 readout (Cy2_lin (nonlinear_cellY q)) (Cy2_lin2 (nonlinear_cellY q))
                   (batches x ! n ! t)) \<and>
              (\<forall>t. Suc t < T \<longrightarrow> batches x ! n ! Suc t =
                 vadd (vadd (affine (Optim3Cell.W_A (Optim3.rnn_cell q)) (batches x ! n ! t))
                            (affine (Optim3Cell.W_K (Optim3.rnn_cell q))
                               (batches y ! n ! t @ batches bs ! n ! t)))
                      (affine (Optim3Cell.W_B (Optim3.rnn_cell q)) (batches u ! n ! t))))"
proof -
  let ?A = "Optim3Cell.W_A (Optim3.rnn_cell q)"
  let ?K = "Optim3Cell.W_K (Optim3.rnn_cell q)"
  let ?B = "Optim3Cell.W_B (Optim3.rnn_cell q)"
  let ?L1 = "Cy2_lin (nonlinear_cellY q)"
  let ?L2 = "Cy2_lin2 (nonlinear_cellY q)"
  let ?c = "cat y bs"
  let ?tr = "trace ?A ?K ?B ?c u [0..<T] (zeros N xn)"
  let ?x = "stacked N xn ?tr"
  let ?z = "stacked N yh (map (readout2 ?L1 ?L2) ?tr)"
  from b y u have sh: "length (batches y) = N" "dim2 y = ys" "dim1 y = T"
    "length (batches u) = N" "dim2 u = us" "dim1 u = T"
    "length (batches bs) = N" "dim2 bs = xb" "dim1 bs = T"
    by (simp_all add: valid3_def)
  have fw: "Optim3_forward q bs y u = Inr (?z, ?x)"
    using Optim3_forward_ok[OF init sh(7,8) _ sh(1,2,4,5)] sh(3,6,9) T by simp
  have len: "length ?tr = T" by (simp add: length_trace)
  have csh: "length (batches ?c) = N" using sh by (simp add: cat_shape)
  have z0: "length (rows (zeros N xn)) = N" "size1 (zeros N xn) = xn"
    "\<forall>r \<in> set (rows (zeros N xn)). length r = xn"
    by (simp_all add: zeros_def)
  have trsh: "\<And>s. s \<in> set ?tr \<Longrightarrow> length (rows s) = N"
    using trace_shape[of ?c "zeros N xn" u ?A _ ?K ?B "[0..<T]"] sh csh z0 Optim3_weights(1)[OF init]
    by simp
  have trlen: "\<And>s. s \<in> set ?tr \<Longrightarrow> \<forall>r \<in> set (rows s). length r = xn"
    using trace_rows_len[OF Optim3_weights[OF init] z0(3)] by blast
  have vx: "valid3 N T xn ?x"
    using stacked_valid3[of ?tr N xn] trsh trlen len by simp
  have shz: "length (batches ?z) = N" "dim1 ?z = T" "dim2 ?z = yh"
    by (simp_all add: stacked_shape len)
  have elems: "batches ?x ! n ! 0 = replicate xn 0 \<and>
      (\<forall>t<T. batches ?z ! n ! t = readout ?L1 ?L2 (batches ?x ! n ! t)) \<and>
      (\<forall>t. Suc t < T \<longrightarrow> batches ?x ! n ! Suc t =
         vadd (vadd (affine ?A (batches ?x ! n ! t))
                    (affine ?K (batches y ! n ! t @ batches bs ! n ! t)))
              (affine ?B (batches u ! n ! t)))" if n: "n < N" for n
  proof (intro conjI allI impI)
    show "batches ?x ! n ! 0 = replicate xn 0"
      using n T len by (simp add: stacked_nth trace_upt_0 zeros_def)
  next
    fix t assume t: "t < T"
    then have "?tr ! t \<in> set ?tr" using len by simp
    then have "n < length (rows (?tr ! t))" using trsh n by simp
    then show "batches ?z ! n ! t = readout ?L1 ?L2 (batches ?x ! n ! t)"
      using n t len by (simp add: stacked_nth readout2_def)
  next
    fix t assume t: "Suc t < T"
    then have t': "t < T" by simp
    from t have "?tr ! t \<in> set ?tr" using len by simp
    then have l: "length (rows (?tr ! t)) = N" using trsh by simp
    have ce: "rows (sel ?c t) ! n = batches y ! n ! t @ batches bs ! n ! t"
      using n t' sh csh valid3_elem(1)[OF y n t'] valid3_elem(1)[OF b n t']
      by (simp add: sel_row cat_elem)
    have "batches ?x ! n ! Suc t = rows (?tr ! Suc t) ! n"
      using n t len by (simp add: stacked_nth)
    also have "?tr ! Suc t = step2 ?A ?K ?B (?tr ! t) (sel ?c t) (sel u t)"
      using trace_upt_Suc[of 0 t T ?A ?K ?B ?c u] t by simp
    also have "rows \<dots> ! n = vadd (vadd (affine ?A (rows (?tr ! t) ! n))
        (affine ?K (rows (sel ?c t) ! n))) (affine ?B (rows (sel u t) ! n))"
      using l n sh csh by (intro step2_row) (simp_all add: sel_shape)
    also have "rows (?tr ! t) ! n = batches ?x ! n ! t"
      using n t len by (simp add: stacked_nth)
    finally show "batches ?x ! n ! Suc t =
         vadd (vadd (affine ?A (batches ?x ! n ! t))
                    (affine ?K (batches y ! n ! t @ batches bs ! n ! t)))
              (affine ?B (batches u ! n ! t))"
      using n sh ce by (simp add: sel_row)
  qed
  from fw vx shz elems show ?thesis by blast
qed

lemmas init3_defs =
  Optim3_init_def Optim3Cell_init_def NonlinearOptim3CellY_init_def Linear_init_def

lemma ex_q_init: "Optim3_init 1 1 1 1 1 1 ex_q"
  by (simp add: init3_defs ex_q_def zero_Linear_def)

lemma ex_behav_valid: "valid3 1 2 1 ex_behav"
  by (simp add: valid3_def ex_behav_def)

text \<open>
  Claim C2. On \<open>behavStates\<close> of shape (B, T, Dxb), \<open>y\<close> of shape (B, T, Dy) and \<open>u\<close> of
  shape (B, T, Du) with \<open>T \<ge> 1\<close>, \<^verbatim>\<open>Optim3.forward\<close> returns a state sequence of shape
  (B, T, Dxn), the states \<open>0..T-1\<close>, with \<open>x[0] = 0\<close> and
  \<open>x[t+1] = W_A(x[t]) + W_K(c[t]) + W_B(u[t])\<close>, where \<open>c[t]\<close> is \<open>y[t]\<close> followed by
  \<open>behavStates[t]\<close>. The three maps are those of the Stage-2 instance alone.
\<close>

theorem Optim3_states_recurrence:
  assumes "Optim3_init xb xn ys us yh zh q"
    and "valid3 N T xb bs" and "valid3 N T ys y" and "valid3 N T us u" and "0 < T"
  shows "\<exists>yhat x. Optim3_forward q bs y u = Inr (yhat, x) \<and> valid3 N T xn x \<and>
           (\<forall>n<N. batches x ! n ! 0 = replicate xn 0 \<and>
              (\<forall>t. Suc t < T \<longrightarrow> batches x ! n ! Suc t =
                 vadd (vadd (affine (Optim3Cell.W_A (Optim3.rnn_cell q)) (batches x ! n ! t))
                            (affine (Optim3Cell.W_K (Optim3.rnn_cell q))
                               (batches y ! n ! t @ batches bs ! n ! t)))
                      (affine (Optim3Cell.W_B (Optim3.rnn_cell q)) (batches u ! n ! t))))"
  using Optim3_forward_elems[OF assms] by blast

theorem Optim3_states_recurrence_witness:
  "Optim3_init 1 1 1 1 1 1 ex_q \<and> valid3 1 2 1 ex_behav \<and> valid3 1 2 1 ex_y \<and>
   valid3 1 2 1 ex_u \<and>
   (\<exists>yhat x. Optim3_forward ex_q ex_behav ex_y ex_u = Inr (yhat, x) \<and> valid3 1 2 1 x \<and>
      batches x ! 0 ! 0 = [0] \<and> batches x ! 0 ! 1 = [26])"
proof -
  from Optim3_states_recurrence[OF ex_q_init ex_behav_valid ex_y_valid ex_u_valid]
  obtain yhat x where fw: "Optim3_forward ex_q ex_behav ex_y ex_u = Inr (yhat, x)"
    and v: "valid3 1 2 1 x"
    and rec: "\<forall>n<1. batches x ! n ! 0 = replicate 1 0 \<and>
              (\<forall>t. Suc t < 2 \<longrightarrow> batches x ! n ! Suc t =
                 vadd (vadd (affine (Optim3Cell.W_A (Optim3.rnn_cell ex_q)) (batches x ! n ! t))
                            (affine (Optim3Cell.W_K (Optim3.rnn_cell ex_q))
                               (batches ex_y ! n ! t @ batches ex_behav ! n ! t)))
                      (affine (Optim3Cell.W_B (Optim3.rnn_cell ex_q)) (batches ex_u ! n ! t)))"
    by auto
  from rec have x0: "batches x ! 0 ! 0 = [0]" by simp
  from rec have "batches x ! 0 ! Suc 0 =
      vadd (vadd (affine (Optim3Cell.W_A (Optim3.rnn_cell ex_q)) (batches x ! 0 ! 0))
                 (affine (Optim3Cell.W_K (Optim3.rnn_cell ex_q))
                    (batches ex_y ! 0 ! 0 @ batches ex_behav ! 0 ! 0)))
           (affine (Optim3Cell.W_B (Optim3.rnn_cell ex_q)) (batches ex_u ! 0 ! 0))"
    by simp
  with x0 have x1: "batches x ! 0 ! 1 = [26]"
    by (simp add: ex_q_def ex_y_def ex_u_def ex_behav_def affine_def dot_def vadd_def)
  from fw v x0 x1 ex_q_init ex_behav_valid ex_y_valid ex_u_valid show ?thesis by blast
qed


section \<open>Inputs whose shapes disagree\<close>

lemma cell_isl_width:
  assumes "size1 k_t \<noteq> in_features K \<or> size1 u_t \<noteq> in_features B"
  shows "isl (bind_err (Linear_forward A x) (\<lambda>a.
         bind_err (Linear_forward K k_t) (\<lambda>k.
         bind_err (add2 a k) (\<lambda>ak.
         bind_err (Linear_forward B u_t) (\<lambda>b.
         add2 ak b)))))"
  using assms by (auto simp: bind_err_def Linear_forward_def split: sum.splits)

lemma length_rows_add2:
  assumes "add2 a b = Inr c" "length (rows a) = length (rows b)"
  shows "length (rows c) = length (rows a)"
  using assms by (auto simp: add2_def bsize_def expand_def split: option.splits if_splits)

lemma add2_isl:
  assumes "length (rows a) \<noteq> length (rows b)" "length (rows a) \<noteq> 1" "length (rows b) \<noteq> 1"
  shows "isl (add2 a b)"
  using assms by (simp add: add2_def bsize_def)

lemma length_rows_Linear_forward:
  "Linear_forward l x = Inr a \<Longrightarrow> length (rows a) = length (rows x)"
  by (auto simp: Linear_forward_def split: if_splits)

lemma cell_isl_batch:
  assumes "length (rows k_t) = length (rows x)"
    and "length (rows u_t) \<noteq> length (rows x)" "length (rows u_t) \<noteq> 1" "length (rows x) \<noteq> 1"
  shows "isl (bind_err (Linear_forward A x) (\<lambda>a.
         bind_err (Linear_forward K k_t) (\<lambda>k.
         bind_err (add2 a k) (\<lambda>ak.
         bind_err (Linear_forward B u_t) (\<lambda>b.
         add2 ak b)))))"
proof (cases "Linear_forward A x")
  case (Inr a)
  note a = this
  show ?thesis
  proof (cases "Linear_forward K k_t")
    case (Inr k)
    note k = this
    have ak: "length (rows a) = length (rows k)"
      using a k assms(1) by (simp add: length_rows_Linear_forward)
    show ?thesis
    proof (cases "add2 a k")
      case (Inr ak')
      note s = this
      have l: "length (rows ak') = length (rows x)"
        using length_rows_add2[OF s ak] a by (simp add: length_rows_Linear_forward)
      show ?thesis
      proof (cases "Linear_forward B u_t")
        case (Inr b)
        then have "length (rows b) = length (rows u_t)" by (rule length_rows_Linear_forward)
        with l assms have "isl (add2 ak' b)" by (intro add2_isl) simp_all
        with a k s Inr show ?thesis by (simp add: bind_err_Inr)
      qed (simp add: a k s bind_err_Inr bind_err_Inl)
    qed (simp add: a k bind_err_Inr bind_err_Inl)
  qed (simp add: a bind_err_Inr bind_err_Inl)
qed (simp add: bind_err_Inl)

lemma select1_shape:
  "select1 y t = Inr y_t \<Longrightarrow> size1 y_t = dim2 y \<and> length (rows y_t) = length (batches y)"
  by (auto simp: select1_def split: if_splits)

text \<open>Stage 1.\<close>

lemma Optim1_loop_isl_first:
  assumes "size1 x = xb" "length (rows x) = length (batches y)"
    and "dim2 y \<noteq> in_features (Optim1Cell.W_K (Optim1.rnn_cell p)) \<or>
         dim2 u \<noteq> in_features (Optim1Cell.W_B (Optim1.rnn_cell p)) \<or>
         (length (batches u) \<noteq> length (batches y) \<and> length (batches u) \<noteq> 1 \<and>
          length (batches y) \<noteq> 1)"
  shows "isl (Optim1_loop p y u (t # ts) (x, bs, zs))"
proof (cases "select1 y t")
  case (Inr y_t)
  note y_t = this
  show ?thesis
  proof (cases "select1 u t")
    case (Inr u_t)
    from select1_shape[OF y_t] select1_shape[OF Inr] assms
    have "isl (Optim1Cell_forward (Optim1.rnn_cell p) x y_t u_t)"
      unfolding Optim1Cell_forward_def
      by (elim disjE conjE) (simp_all add: cell_isl_width cell_isl_batch)
    with y_t Inr show ?thesis by (simp add: bind_err_Inr isl_bind_err)
  qed (simp add: y_t bind_err_Inr bind_err_Inl)
qed (simp add: bind_err_Inl)

lemma Optim1_loop_isl_mem:
  assumes "t \<in> set ts" "isl (select1 u t)"
  shows "isl (Optim1_loop p y u ts (x, bs, zs))"
  using assms(1)
proof (induction ts arbitrary: x bs zs)
  case Nil
  then show ?case by simp
next
  case (Cons a ts)
  show ?case
  proof (cases "a = t")
    case True
    with assms(2) show ?thesis
      by (cases "select1 y t"; cases "select1 u t") (simp_all add: bind_err_def)
  next
    case False
    with Cons.prems have "t \<in> set ts" by simp
    then have "\<And>x bs zs. isl (Optim1_loop p y u ts (x, bs, zs))" by (rule Cons.IH)
    then show ?thesis
      by (auto simp: bind_err_def split: sum.splits)
  qed
qed

lemma Optim1_loop_cong_u:
  assumes "\<And>t. t \<in> set ts \<Longrightarrow> select1 u t = select1 u' t"
  shows "Optim1_loop p y u ts st = Optim1_loop p y u' ts st"
  using assms
proof (induction ts arbitrary: st)
  case Nil
  show ?case by simp
next
  case (Cons a ts)
  obtain x bs zs where st: "st = (x, bs, zs)" by (cases st)
  from Cons.prems have "select1 u a = select1 u' a" by simp
  moreover from Cons have "\<And>st. Optim1_loop p y u ts st = Optim1_loop p y u' ts st" by simp
  ultimately show ?case by (simp add: st)
qed

lemma select1_prefix3: "t < n \<Longrightarrow> n \<le> dim1 u \<Longrightarrow> select1 (prefix3 n u) t = select1 u t"
  by (simp add: select1_def prefix3_def)

lemma Optim1_forward_isl:
  assumes init: "Optim1_init xb ys us yh zh p"
    and bad: "dim2 y \<noteq> ys \<or> dim2 u \<noteq> us \<or> dim1 u < dim1 y \<or>
      (length (batches u) \<noteq> length (batches y) \<and> length (batches u) \<noteq> 1 \<and>
       length (batches y) \<noteq> 1)"
  shows "isl (Optim1_forward p y u)"
proof (cases "dim1 y")
  case 0
  then show ?thesis
    by (simp add: Optim1_forward_def bind_err_def stack1_def)
next
  case (Suc T')
  let ?x0 = "zeros (length (batches y)) (xBehav_size p)"
  from init have inf: "in_features (Optim1Cell.W_K (Optim1.rnn_cell p)) = ys"
    "in_features (Optim1Cell.W_B (Optim1.rnn_cell p)) = us"
    by (simp_all add: Optim1_init_def Optim1Cell_init_def Linear_init_def)
  have up: "[0..<dim1 y] = 0 # [1..<dim1 y]"
    using Suc by (simp add: upt_conv_Cons)
  have x0: "size1 ?x0 = xBehav_size p" "length (rows ?x0) = length (batches y)"
    by (simp_all add: zeros_def)
  have "isl (Optim1_loop p y u [0..<dim1 y] (?x0, [], []))"
  proof (cases "dim1 u < dim1 y")
    case True
    then have "dim1 u \<in> set [0..<dim1 y]" "isl (select1 u (dim1 u))"
      by (simp_all add: select1_def)
    then show ?thesis by (rule Optim1_loop_isl_mem)
  next
    case False
    with bad inf show ?thesis
      unfolding up by (intro Optim1_loop_isl_first[OF x0]) auto
  qed
  then show ?thesis
    by (simp add: Optim1_forward_def isl_bind_err)
qed

lemma Optim1_forward_truncates_u:
  assumes "dim1 y \<le> dim1 u"
  shows "Optim1_forward p y (prefix3 (dim1 y) u) = Optim1_forward p y u"
proof -
  have "Optim1_loop p y (prefix3 (dim1 y) u) [0..<dim1 y] st = Optim1_loop p y u [0..<dim1 y] st"
    for st using assms by (intro Optim1_loop_cong_u) (simp add: select1_prefix3)
  then show ?thesis by (simp add: Optim1_forward_def)
qed


text \<open>Stage 2.\<close>

lemma Optim3_loop_isl_first:
  assumes "size1 x = xn" "length (rows x) = length (batches c)"
    and "dim2 c \<noteq> in_features (Optim3Cell.W_K (Optim3.rnn_cell q)) \<or>
         dim2 u \<noteq> in_features (Optim3Cell.W_B (Optim3.rnn_cell q)) \<or>
         (length (batches u) \<noteq> length (batches c) \<and> length (batches u) \<noteq> 1 \<and>
          length (batches c) \<noteq> 1)"
  shows "isl (Optim3_loop q c u (t # ts) (x, ys2, xs))"
proof (cases "select1 c t")
  case (Inr c_t)
  note c_t = this
  show ?thesis
  proof (cases "select1 u t")
    case (Inr u_t)
    from select1_shape[OF c_t] select1_shape[OF Inr] assms
    have "isl (Optim3Cell_forward (Optim3.rnn_cell q) x c_t u_t)"
      unfolding Optim3Cell_forward_def
      by (elim disjE conjE) (simp_all add: cell_isl_width cell_isl_batch)
    with c_t Inr show ?thesis by (simp add: bind_err_Inr isl_bind_err)
  qed (simp add: c_t bind_err_Inr bind_err_Inl)
qed (simp add: bind_err_Inl)

lemma Optim3_loop_isl_mem:
  assumes "t \<in> set ts" "isl (select1 u t)"
  shows "isl (Optim3_loop q c u ts (x, ys2, xs))"
  using assms(1)
proof (induction ts arbitrary: x ys2 xs)
  case Nil
  then show ?case by simp
next
  case (Cons a ts)
  show ?case
  proof (cases "a = t")
    case True
    with assms(2) show ?thesis
      by (cases "select1 c t"; cases "select1 u t") (simp_all add: bind_err_def)
  next
    case False
    with Cons.prems have "t \<in> set ts" by simp
    then have "\<And>x ys2 xs. isl (Optim3_loop q c u ts (x, ys2, xs))" by (rule Cons.IH)
    then show ?thesis
      by (auto simp: bind_err_def split: sum.splits)
  qed
qed

lemma Optim3_loop_cong_u:
  assumes "\<And>t. t \<in> set ts \<Longrightarrow> select1 u t = select1 u' t"
  shows "Optim3_loop q c u ts st = Optim3_loop q c u' ts st"
  using assms
proof (induction ts arbitrary: st)
  case Nil
  show ?case by simp
next
  case (Cons a ts)
  obtain x ys2 xs where st: "st = (x, ys2, xs)" by (cases st)
  from Cons.prems have "select1 u a = select1 u' a" by simp
  moreover from Cons have "\<And>st. Optim3_loop q c u ts st = Optim3_loop q c u' ts st" by simp
  ultimately show ?case by (simp add: st)
qed

lemma Optim3_forward_isl:
  assumes init: "Optim3_init xb xn ys us yh zh q"
    and bad: "length (batches bs) \<noteq> length (batches y) \<or> dim1 bs \<noteq> dim1 y \<or>
      dim2 y + dim2 bs \<noteq> ys + xb \<or> dim2 u \<noteq> us \<or> dim1 u < dim1 y \<or>
      (length (batches u) \<noteq> length (batches y) \<and> length (batches u) \<noteq> 1 \<and>
       length (batches y) \<noteq> 1)"
  shows "isl (Optim3_forward q bs y u)"
proof (cases "length (batches bs) = length (batches y) \<and> dim1 bs = dim1 y")
  case False
  then have "cat2 y bs = Inl RuntimeError" by (auto simp: cat2_def)
  then show ?thesis by (simp add: Optim3_forward_def bind_err_Inl)
next
  case True
  let ?c = "cat y bs"
  let ?x0 = "zeros (length (batches y)) (xNeural_size q)"
  from True have ct: "cat2 y bs = Inr ?c" by (simp add: cat2_ok)
  from True have csh: "length (batches ?c) = length (batches y)" "dim2 ?c = dim2 y + dim2 bs"
    by (simp_all add: cat_shape)
  show ?thesis
  proof (cases "dim1 y")
    case 0
    then show ?thesis
      by (simp add: Optim3_forward_def ct bind_err_def stack1_def)
  next
    case (Suc T')
    from init have inf: "in_features (Optim3Cell.W_K (Optim3.rnn_cell q)) = ys + xb"
      "in_features (Optim3Cell.W_B (Optim3.rnn_cell q)) = us"
      by (simp_all add: Optim3_init_def Optim3Cell_init_def Linear_init_def)
    have up: "[0..<dim1 y] = 0 # [1..<dim1 y]"
      using Suc by (simp add: upt_conv_Cons)
    have x0: "size1 ?x0 = xNeural_size q" "length (rows ?x0) = length (batches ?c)"
      by (simp_all add: zeros_def csh)
    have "isl (Optim3_loop q ?c u [0..<dim1 y] (?x0, [], []))"
    proof (cases "dim1 u < dim1 y")
      case True
      then have "dim1 u \<in> set [0..<dim1 y]" "isl (select1 u (dim1 u))"
        by (simp_all add: select1_def)
      then show ?thesis by (rule Optim3_loop_isl_mem)
    next
      case False
      with bad True inf csh show ?thesis
        unfolding up by (intro Optim3_loop_isl_first[OF x0]) auto
    qed
    then show ?thesis
      by (simp add: Optim3_forward_def ct bind_err_Inr isl_bind_err)
  qed
qed

lemma Optim3_forward_truncates_u:
  assumes "dim1 y \<le> dim1 u"
  shows "Optim3_forward q bs y (prefix3 (dim1 y) u) = Optim3_forward q bs y u"
proof -
  have "Optim3_loop q c (prefix3 (dim1 y) u) [0..<dim1 y] st = Optim3_loop q c u [0..<dim1 y] st"
    for st c using assms by (intro Optim3_loop_cong_u) (simp add: select1_prefix3)
  then show ?thesis by (simp add: Optim3_forward_def)
qed


text \<open>
  Claim C5, as the code has it. Neither forward pass checks its inputs before it starts;
  an error arises where an operation of the library refuses its operands.
  \<^verbatim>\<open>Optim1.forward\<close> returns an error when the feature width of \<open>y\<close> or of \<open>u\<close> is not the
  configured one, when \<open>u\<close> has fewer time steps than \<open>y\<close>, and when the batch sizes of
  \<open>y\<close> and \<open>u\<close> differ and neither is 1. \<^verbatim>\<open>Optim3.forward\<close> returns an error when
  \<open>behavStates\<close> and \<open>y\<close> differ in batch size or in sequence length, when the sum of
  their feature widths is not \<open>Dy + Dxb\<close>, and in the same cases for \<open>u\<close>. A stream \<open>u\<close>
  that is longer than \<open>y\<close> is accepted, and the result is that of its prefix of the
  length of \<open>y\<close>.
\<close>

theorem forward_shape_mismatch:
  assumes "Optim1_init xb ys us yh zh p" and "Optim3_init xb xn ys us yh zh q"
  shows "(dim2 y \<noteq> ys \<or> dim2 u \<noteq> us \<or> dim1 u < dim1 y \<or>
          (length (batches u) \<noteq> length (batches y) \<and> length (batches u) \<noteq> 1 \<and>
           length (batches y) \<noteq> 1)
          \<longrightarrow> isl (Optim1_forward p y u)) \<and>
         (length (batches bs) \<noteq> length (batches y) \<or> dim1 bs \<noteq> dim1 y \<or>
          dim2 y + dim2 bs \<noteq> ys + xb \<or> dim2 u \<noteq> us \<or> dim1 u < dim1 y \<or>
          (length (batches u) \<noteq> length (batches y) \<and> length (batches u) \<noteq> 1 \<and>
           length (batches y) \<noteq> 1)
          \<longrightarrow> isl (Optim3_forward q bs y u)) \<and>
         (dim1 y \<le> dim1 u
          \<longrightarrow> Optim1_forward p y u = Optim1_forward p y (prefix3 (dim1 y) u) \<and>
              Optim3_forward q bs y u = Optim3_forward q bs y (prefix3 (dim1 y) u))"
proof (intro conjI impI)
  assume "dim2 y \<noteq> ys \<or> dim2 u \<noteq> us \<or> dim1 u < dim1 y \<or>
          (length (batches u) \<noteq> length (batches y) \<and> length (batches u) \<noteq> 1 \<and>
           length (batches y) \<noteq> 1)"
  with assms(1) show "isl (Optim1_forward p y u)" by (rule Optim1_forward_isl)
next
  assume "length (batches bs) \<noteq> length (batches y) \<or> dim1 bs \<noteq> dim1 y \<or>
          dim2 y + dim2 bs \<noteq> ys + xb \<or> dim2 u \<noteq> us \<or> dim1 u < dim1 y \<or>
          (length (batches u) \<noteq> length (batches y) \<and> length (batches u) \<noteq> 1 \<and>
           length (batches y) \<noteq> 1)"
  with assms(2) show "isl (Optim3_forward q bs y u)" by (rule Optim3_forward_isl)
next
  assume "dim1 y \<le> dim1 u"
  then show "Optim1_forward p y u = Optim1_forward p y (prefix3 (dim1 y) u)"
    by (simp add: Optim1_forward_truncates_u)
next
  assume "dim1 y \<le> dim1 u"
  then show "Optim3_forward q bs y u = Optim3_forward q bs y (prefix3 (dim1 y) u)"
    by (simp add: Optim3_forward_truncates_u)
qed

theorem forward_shape_mismatch_witness:
  "Optim1_init 1 1 1 1 1 ex_p \<and> Optim3_init 1 1 1 1 1 1 ex_q \<and>
   dim1 ex_u1 < dim1 ex_y \<and> isl (Optim1_forward ex_p ex_y ex_u1) \<and>
   dim1 ex_behav3 \<noteq> dim1 ex_y \<and> isl (Optim3_forward ex_q ex_behav3 ex_y ex_u) \<and>
   dim1 ex_y1 \<le> dim1 ex_u \<and>
   Optim1_forward ex_p ex_y1 ex_u = Optim1_forward ex_p ex_y1 (prefix3 (dim1 ex_y1) ex_u)"
proof -
  have a: "dim1 ex_u1 < dim1 ex_y" and b: "dim1 ex_behav3 \<noteq> dim1 ex_y"
    and c: "dim1 ex_y1 \<le> dim1 ex_u"
    by (simp_all add: ex_u1_def ex_y_def ex_behav3_def ex_y1_def ex_u_def)
  from forward_shape_mismatch[OF ex_p_init ex_q_init, of ex_y ex_u1] a
  have 1: "isl (Optim1_forward ex_p ex_y ex_u1)" by blast
  from forward_shape_mismatch[OF ex_p_init ex_q_init, of ex_y ex_u ex_behav3] b
  have 2: "isl (Optim3_forward ex_q ex_behav3 ex_y ex_u)" by blast
  from forward_shape_mismatch[OF ex_p_init ex_q_init, of ex_y1 ex_u] c
  have 3: "Optim1_forward ex_p ex_y1 ex_u = Optim1_forward ex_p ex_y1 (prefix3 (dim1 ex_y1) ex_u)"
    by blast
  from a b c 1 2 3 ex_p_init ex_q_init show ?thesis by blast
qed

text \<open>
  Claim C5 as stated fails: with \<open>y\<close> of shape (1, 1, 1) and \<open>u\<close> of shape (1, 2, 1) the
  sequence lengths disagree and \<^verbatim>\<open>Optim1.forward\<close> returns a result, the second step of
  \<open>u\<close> being ignored; with \<open>y\<close> of shape (2, 2, 1) and \<open>u\<close> of shape (1, 2, 1) the batch
  sizes disagree and it returns a result in which the one batch element of \<open>u\<close> drives
  both batch elements of the state.
\<close>

theorem forward_accepts_mismatch:
  "Optim1_init 1 1 1 1 1 ex_p \<and>
   valid3 1 1 1 ex_y1 \<and> valid3 1 2 1 ex_u \<and> dim1 ex_u \<noteq> dim1 ex_y1 \<and>
   Optim1_forward ex_p ex_y1 ex_u =
     Inr (\<lparr>dim1 = 1, dim2 = 1, batches = [[[sigmoid 0]]]\<rparr>,
          \<lparr>dim1 = 1, dim2 = 1, batches = [[[0]]]\<rparr>) \<and>
   valid3 2 2 1 ex_y_two \<and> length (batches ex_u) \<noteq> length (batches ex_y_two) \<and>
   Optim1_forward ex_p ex_y_two ex_u =
     Inr (\<lparr>dim1 = 2, dim2 = 1, batches = [[[sigmoid 0], [sigmoid 6]], [[sigmoid 0], [sigmoid 12]]]\<rparr>,
          \<lparr>dim1 = 2, dim2 = 1, batches = [[[0], [6]], [[0], [12]]]\<rparr>)"
proof -
  have "Optim1_forward ex_p ex_y1 ex_u =
     Inr (\<lparr>dim1 = 1, dim2 = 1, batches = [[[sigmoid 0]]]\<rparr>,
          \<lparr>dim1 = 1, dim2 = 1, batches = [[[0]]]\<rparr>)"
    by (simp add: eval_defs ex_p_def ex_cell_def ex_dec_def ex_y1_def ex_u_def upt_small)
  moreover have "Optim1_forward ex_p ex_y_two ex_u =
     Inr (\<lparr>dim1 = 2, dim2 = 1, batches = [[[sigmoid 0], [sigmoid 6]], [[sigmoid 0], [sigmoid 12]]]\<rparr>,
          \<lparr>dim1 = 2, dim2 = 1, batches = [[[0], [6]], [[0], [12]]]\<rparr>)"
    by (simp add: eval_defs ex_p_def ex_cell_def ex_dec_def ex_y_two_def ex_u_def upt_small)
  moreover have "valid3 1 1 1 ex_y1" "valid3 2 2 1 ex_y_two"
    "dim1 ex_u \<noteq> dim1 ex_y1" "length (batches ex_u) \<noteq> length (batches ex_y_two)"
    by (simp_all add: valid3_def ex_y1_def ex_y_two_def ex_u_def)
  ultimately show ?thesis using ex_p_init ex_u_valid by simp
qed

end
